theory Spec2Isabelle
  imports Complex_Main "HOL-Library.Char_ord" "HOL-Library.List_Lexorder"
begin

section \<open>SafeHer: the local persistence and query layer\<close>

text \<open>
  The application keeps its records in ten IndexedDB object stores, reached through
  the \<^verbatim>\<open>DatabaseManager\<close> class, and builds a handful of derived queries on top of
  them. The asynchronous calls of the source are awaited one after the other, so each
  of them is modelled as a function from the state before to a result and the state
  after; a rejected promise is the left injection of a sum.
\<close>

subsection \<open>JavaScript values and records\<close>

text \<open>
  The stored records are plain objects with scalar properties. An object is a map from
  property names to values; a property that is missing reads as \<^verbatim>\<open>undefined\<close>,
  which is \<open>None\<close> here. Numbers are taken as reals.
\<close>

datatype jsval = JNull | JBool bool | JNum real | JStr string

type_synonym jsobj = "string \<rightharpoonup> jsval"

text \<open>The truth value JavaScript gives to a property in a condition.\<close>

fun truthy :: "jsval option \<Rightarrow> bool" where
  "truthy None = False"
| "truthy (Some JNull) = False"
| "truthy (Some (JBool b)) = b"
| "truthy (Some (JNum x)) = (x \<noteq> 0)"
| "truthy (Some (JStr s)) = (s \<noteq> [])"

subsection \<open>Object stores\<close>

text \<open>
  Of the values above, numbers and strings are valid IndexedDB keys; \<^verbatim>\<open>null\<close>,
  \<^verbatim>\<open>undefined\<close> and booleans are not. Numbers sort before strings.
\<close>

datatype key = KNum real | KStr string

fun to_key :: "jsval option \<Rightarrow> key option" where
  "to_key (Some (JNum x)) = Some (KNum x)"
| "to_key (Some (JStr s)) = Some (KStr s)"
| "to_key _ = None"

fun key_val :: "key \<Rightarrow> jsval" where
  "key_val (KNum x) = JNum x"
| "key_val (KStr s) = JStr s"

fun key_less :: "key \<Rightarrow> key \<Rightarrow> bool" where
  "key_less (KNum a) (KNum b) = (a < b)"
| "key_less (KNum a) (KStr t) = True"
| "key_less (KStr s) (KNum b) = False"
| "key_less (KStr s) (KStr t) = (s < t)"

datatype dom_error = ConstraintError | DataError | NotFoundError

text \<open>
  Every store of the application is created with
  \<^verbatim>\<open>{ keyPath: 'id', autoIncrement: true }\<close>: the primary key of a record is its
  \<^verbatim>\<open>id\<close> property, and a record stored without one receives the current number
  of the store's key generator. A store is its records in key order, the generator's
  current number, and its indexes (key path and uniqueness flag; every index of the
  schema is named after its key path).
\<close>

record objstore =
  rows :: "jsobj list"
  keygen :: nat
  indexes :: "(string \<times> bool) list"

definition key_of :: "jsobj \<Rightarrow> key option" where
  "key_of v = to_key (v ''id'')"

definition has_key :: "objstore \<Rightarrow> key \<Rightarrow> bool" where
  "has_key s k = list_ex (\<lambda>r. key_of r = Some k) (rows s)"

definition unique_paths :: "objstore \<Rightarrow> string list" where
  "unique_paths s = map fst (filter snd (indexes s))"

text \<open>
  A record is entered in an index only when its value at the index's key path is a valid
  key. A unique index refuses a record whose index key is already held by a record with
  another primary key.
\<close>

definition unique_clash :: "objstore \<Rightarrow> key \<Rightarrow> jsobj \<Rightarrow> bool" where
  "unique_clash s k v =
     list_ex (\<lambda>r. key_of r \<noteq> Some k \<and>
                 list_ex (\<lambda>p. to_key (v p) \<noteq> None \<and> to_key (r p) = to_key (v p))
                   (unique_paths s))
       (rows s)"

definition key_before :: "jsobj \<Rightarrow> jsobj \<Rightarrow> bool" where
  "key_before v r =
     (case key_of v of
        None \<Rightarrow> False
      | Some a \<Rightarrow> (case key_of r of None \<Rightarrow> False | Some b \<Rightarrow> key_less a b))"

fun insert_row :: "jsobj \<Rightarrow> jsobj list \<Rightarrow> jsobj list" where
  "insert_row v [] = [v]"
| "insert_row v (r # rs) = (if key_before v r then v # r # rs else r # insert_row v rs)"

definition write_row :: "key \<Rightarrow> jsobj \<Rightarrow> objstore \<Rightarrow> jsobj list" where
  "write_row k v s =
     (if has_key s k then map (\<lambda>r. if key_of r = Some k then v else r) (rows s)
      else insert_row v (rows s))"

text \<open>
  Storing a record with an explicit numeric key moves the key generator past it.
\<close>

fun bump :: "nat \<Rightarrow> key \<Rightarrow> nat" where
  "bump g (KNum x) =
     (let n = nat \<lfloor>min x (2 ^ 53)\<rfloor> in if g \<le> n then n + 1 else g)"
| "bump g (KStr s) = g"

text \<open>
  The last steps of storing a record under a key: \<^verbatim>\<open>add\<close> refuses an existing
  key, \<^verbatim>\<open>put\<close> overwrites it; both respect the unique indexes. A request that fails
  aborts its transaction, so an error leaves the store as it was: no new store is
  returned with it.
\<close>

definition finish_store :: "bool \<Rightarrow> objstore \<Rightarrow> key \<Rightarrow> jsobj \<Rightarrow> dom_error + key \<times> objstore" where
  "finish_store no_overwrite s k v =
     (if no_overwrite \<and> has_key s k then Inl ConstraintError
      else if unique_clash s k v then Inl ConstraintError
      else Inr (k, s\<lparr>rows := write_row k v s\<rparr>))"

definition store_record :: "bool \<Rightarrow> objstore \<Rightarrow> jsobj \<Rightarrow> dom_error + key \<times> objstore" where
  "store_record no_overwrite s v =
     (case v ''id'' of
        None \<Rightarrow>
          if 2 ^ 53 < keygen s then Inl ConstraintError
          else finish_store no_overwrite (s\<lparr>keygen := keygen s + 1\<rparr>)
                 (KNum (real (keygen s))) (v(''id'' \<mapsto> JNum (real (keygen s))))
      | Some x \<Rightarrow>
          (case to_key (Some x) of
             None \<Rightarrow> Inl DataError
           | Some k \<Rightarrow> finish_store no_overwrite (s\<lparr>keygen := bump (keygen s) k\<rparr>) k v))"

definition store_get :: "objstore \<Rightarrow> key \<Rightarrow> jsobj option" where
  "store_get s k = find (\<lambda>r. key_of r = Some k) (rows s)"

definition store_delete :: "objstore \<Rightarrow> key \<Rightarrow> objstore" where
  "store_delete s k = s\<lparr>rows := filter (\<lambda>r. key_of r \<noteq> Some k) (rows s)\<rparr>"

definition index_getAll :: "objstore \<Rightarrow> string \<Rightarrow> key \<Rightarrow> dom_error + jsobj list" where
  "index_getAll s indexName val =
     (if indexName \<in> set (map fst (indexes s))
      then Inr (filter (\<lambda>r. to_key (r indexName) = Some val) (rows s))
      else Inl NotFoundError)"

subsection \<open>The schema\<close>

type_synonym database = "string \<rightharpoonup> objstore"

definition new_store :: "(string \<times> bool) list \<Rightarrow> objstore" where
  "new_store ix = \<lparr>rows = [], keygen = 1, indexes = ix\<rparr>"

definition ensure_store :: "string \<Rightarrow> (string \<times> bool) list \<Rightarrow> database \<Rightarrow> database" where
  "ensure_store name ix db = (if db name = None then db(name \<mapsto> new_store ix) else db)"

text \<open>The \<^verbatim>\<open>onupgradeneeded\<close> handler of \<^verbatim>\<open>DatabaseManager.init\<close>.\<close>

definition upgrade :: "database \<Rightarrow> database" where
  "upgrade db =
     (ensure_store ''risk_detections'' [(''user_id'', False), (''risk_level'', False)]
     (ensure_store ''fake_call_templates'' [(''user_id'', False)]
     (ensure_store ''community_responders'' [(''type'', False), (''is_verified'', False)]
     (ensure_store ''user_preferences'' [(''user_id'', True)]
     (ensure_store ''safe_zones'' [(''user_id'', False)]
     (ensure_store ''location_history'' [(''user_id'', False), (''timestamp'', False)]
     (ensure_store ''sos_alerts''
        [(''user_id'', False), (''status'', False), (''triggered_at'', False)]
     (ensure_store ''evidence'' [(''user_id'', False), (''type'', False), (''created_at'', False)]
     (ensure_store ''emergency_contacts'' [(''user_id'', False), (''contact_type'', False)]
     (ensure_store ''users'' [(''phone_number'', True), (''email'', False)] db))))))))))"

text \<open>
  Opening runs the handler only when the database does not exist yet (the version is
  fixed at 1).
\<close>

definition init :: "database option \<Rightarrow> database" where
  "init persisted = (case persisted of None \<Rightarrow> upgrade Map.empty | Some db \<Rightarrow> db)"

subsection \<open>DatabaseManager\<close>

text \<open>
  Each method opens a transaction on the named store, which throws
  \<^verbatim>\<open>NotFoundError\<close> when the store does not exist. \<open>now\<close> is the value of
  \<^verbatim>\<open>new Date().toISOString()\<close> at the call; a method that reads the clock several
  times within one call is given the one value for all of its readings. Identifiers and
  index values are passed as keys.
\<close>

definition add :: "database \<Rightarrow> string \<Rightarrow> string \<Rightarrow> jsobj \<Rightarrow> dom_error + key \<times> database" where
  "add db now storeName data =
     (case db storeName of
        None \<Rightarrow> Inl NotFoundError
      | Some store \<Rightarrow>
          (let data' = (if \<not> truthy (data ''created_at'')
                        then data(''created_at'' \<mapsto> JStr now) else data)
           in case store_record True store data' of
                Inl e \<Rightarrow> Inl e
              | Inr (k, store') \<Rightarrow> Inr (k, db(storeName \<mapsto> store'))))"

definition get :: "database \<Rightarrow> string \<Rightarrow> key \<Rightarrow> dom_error + jsobj option" where
  "get db storeName ident =
     (case db storeName of
        None \<Rightarrow> Inl NotFoundError
      | Some store \<Rightarrow> Inr (store_get store ident))"


definition getByIndex :: "database \<Rightarrow> string \<Rightarrow> string \<Rightarrow> key \<Rightarrow> dom_error + jsobj list" where
  "getByIndex db storeName indexName val =
     (case db storeName of
        None \<Rightarrow> Inl NotFoundError
      | Some store \<Rightarrow> index_getAll store indexName val)"

definition update :: "database \<Rightarrow> string \<Rightarrow> jsobj \<Rightarrow> dom_error + key \<times> database" where
  "update db storeName data =
     (case db storeName of
        None \<Rightarrow> Inl NotFoundError
      | Some store \<Rightarrow>
          (case store_record False store data of
             Inl e \<Rightarrow> Inl e
           | Inr (k, store') \<Rightarrow> Inr (k, db(storeName \<mapsto> store'))))"

definition delete :: "database \<Rightarrow> string \<Rightarrow> key \<Rightarrow> dom_error + database" where
  "delete db storeName ident =
     (case db storeName of
        None \<Rightarrow> Inl NotFoundError
      | Some store \<Rightarrow> Inr (db(storeName \<mapsto> store_delete store ident)))"

text \<open>
  The key generator is ahead of every numeric key in the store: the platform keeps this
  true, \<open>bump\<close> being its part for explicit keys.
\<close>

definition keys_below :: "objstore \<Rightarrow> bool" where
  "keys_below s =
     list_all (\<lambda>r. case key_of r of Some (KNum x) \<Rightarrow> x < real (keygen s) | _ \<Rightarrow> True) (rows s)"

section \<open>The managers built on the database\<close>

text \<open>
  The managers are singletons that share the database; the state they work on is the
  database, the current user of \<^verbatim>\<open>UserManager\<close> and the alert in flight of
  \<^verbatim>\<open>SOSManager\<close>. Every public method catches what its body throws and answers
  with \<^verbatim>\<open>{ success, error }\<close>; the state it leaves is the one reached when the
  exception was thrown.
\<close>

record app =
  idb :: database
  currentUser :: "jsobj option"
  currentAlert :: "jsobj option"

datatype failure = Msg string | DomError dom_error | TypeError

datatype 'a outcome = Success 'a | Failed failure | Cancelled

text \<open>
  A method that hands a property of a record to the database as an identifier: the
  transaction is opened first, then the value has to be a valid key.
\<close>

definition js_key :: "database \<Rightarrow> string \<Rightarrow> jsval option \<Rightarrow> dom_error + key" where
  "js_key d storeName v =
     (case d storeName of
        None \<Rightarrow> Inl NotFoundError
      | Some store \<Rightarrow> (case to_key v of None \<Rightarrow> Inl DataError | Some k \<Rightarrow> Inr k))"

text \<open>The expression \<^verbatim>\<open>v || d\<close>.\<close>

definition or_else :: "jsval option \<Rightarrow> jsval \<Rightarrow> jsval" where
  "or_else v d = (case v of None \<Rightarrow> d | Some x \<Rightarrow> if truthy (Some x) then x else d)"



text \<open>
  The answer of \<^verbatim>\<open>add\<close> together with the database that the next call finds. The
  request that fails is the only one of its transaction, and \<^verbatim>\<open>onerror\<close> does no
  more than reject the promise, so the transaction aborts and what the request did, the
  step of the key generator included, is reverted.
\<close>

definition add_txn ::
    "database \<Rightarrow> string \<Rightarrow> string \<Rightarrow> jsobj \<Rightarrow> (dom_error + key) \<times> database" where
  "add_txn d now storeName data =
     (case add d now storeName data of
        Inl e \<Rightarrow> (Inl e, d)
      | Inr (k, d') \<Rightarrow> (Inr k, d'))"

subsection \<open>UserManager\<close>

definition logout :: "app \<Rightarrow> app" where
  "logout st = st\<lparr>currentUser := None\<rparr>"

text \<open>
  \<^verbatim>\<open>deleteAccount\<close>; \<open>confirmed\<close> is the answer given to the confirmation dialog.
  The only call to the database is the deletion of the user's own record.
\<close>

definition deleteAccount :: "app \<Rightarrow> bool \<Rightarrow> unit outcome \<times> app" where
  "deleteAccount st confirmed =
     (case currentUser st of
        None \<Rightarrow> (Failed (Msg ''No user logged in''), st)
      | Some user \<Rightarrow>
          if \<not> confirmed then (Cancelled, st)
          else (case js_key (idb st) ''users'' (user ''id'') of
                  Inl e \<Rightarrow> (Failed (DomError e), st)
                | Inr userId \<Rightarrow>
                    (case delete (idb st) ''users'' userId of
                       Inl e \<Rightarrow> (Failed (DomError e), st)
                     | Inr db' \<Rightarrow> (Success (), logout (st\<lparr>idb := db'\<rparr>)))))"

subsection \<open>LocationManager.saveLocation\<close>

text \<open>
  \<open>is_safe\<close> is the answer of \<^verbatim>\<open>isInSafeZone\<close> for the location, which reads the
  database and never fails.
\<close>

definition saveLocation :: "app \<Rightarrow> string \<Rightarrow> bool \<Rightarrow> jsobj \<Rightarrow> jsobj outcome \<times> app" where
  "saveLocation st now is_safe location =
     (case currentUser st of
        None \<Rightarrow> (Failed (Msg ''User not logged in''), st)
      | Some user \<Rightarrow>
          (let locationRecord =
                 (Map.empty(''user_id'' := user ''id'',
                            ''latitude'' := location ''latitude'',
                            ''longitude'' := location ''longitude''))
                 (''accuracy'' \<mapsto> or_else (location ''accuracy'') JNull,
                  ''timestamp'' \<mapsto> or_else (location ''timestamp'') (JStr now),
                  ''address'' \<mapsto> or_else (location ''address'') JNull,
                  ''is_safe_zone'' \<mapsto> JBool is_safe)
           in case add (idb st) now ''location_history'' locationRecord of
                Inl e \<Rightarrow> (Failed (DomError e), st)
              | Inr (k, db') \<Rightarrow>
                  (Success (locationRecord(''created_at'' \<mapsto> JStr now, ''id'' \<mapsto> key_val k)),
                   st\<lparr>idb := db'\<rparr>)))"

subsection \<open>SOSManager\<close>

text \<open>
  \<^verbatim>\<open>triggerSOS\<close>; \<open>location\<close> is the position the browser gave, if any. After the
  alert is stored and made the alert in flight, the contacts are notified and the server
  is called, neither of which writes to the database, and the position is saved to the
  location history, whose own failure is ignored.
\<close>

definition triggerSOS :: "app \<Rightarrow> string \<Rightarrow> bool \<Rightarrow> jsobj option \<Rightarrow> jsobj outcome \<times> app" where
  "triggerSOS st now is_safe location =
     (case currentUser st of
        None \<Rightarrow> (Failed (Msg ''User not logged in''), st)
      | Some user \<Rightarrow>
          (let sosAlert =
                 (Map.empty(''user_id'' := user ''id''))
                 (''triggered_at'' \<mapsto> JStr now,
                  ''location_lat'' \<mapsto>
                     (case location of None \<Rightarrow> JNull | Some l \<Rightarrow> or_else (l ''latitude'') JNull),
                  ''location_lng'' \<mapsto>
                     (case location of None \<Rightarrow> JNull | Some l \<Rightarrow> or_else (l ''longitude'') JNull),
                  ''location_address'' \<mapsto> JNull,
                  ''status'' \<mapsto> JStr ''active'',
                  ''notes'' \<mapsto> JStr [])
           in case add (idb st) now ''sos_alerts'' sosAlert of
                Inl e \<Rightarrow> (Failed (DomError e), st)
              | Inr (alertId, db') \<Rightarrow>
                  (let sosAlert' = sosAlert(''created_at'' \<mapsto> JStr now, ''id'' \<mapsto> key_val alertId);
                       st' = st\<lparr>idb := db', currentAlert := Some sosAlert'\<rparr>
                   in (Success sosAlert',
                       case location of
                         None \<Rightarrow> st'
                       | Some l \<Rightarrow> snd (saveLocation st' now is_safe l)))))"

definition cancelSOS :: "app \<Rightarrow> string \<Rightarrow> unit outcome \<times> app" where
  "cancelSOS st now =
     (case currentAlert st of
        None \<Rightarrow> (Success (), st)
      | Some cur \<Rightarrow>
          (case js_key (idb st) ''sos_alerts'' (cur ''id'') of
             Inl e \<Rightarrow> (Failed (DomError e), st)
           | Inr alertId \<Rightarrow>
               (case get (idb st) ''sos_alerts'' alertId of
                  Inl e \<Rightarrow> (Failed (DomError e), st)
                | Inr None \<Rightarrow> (Failed TypeError, st)
                | Inr (Some alert) \<Rightarrow>
                    (case update (idb st) ''sos_alerts''
                            (alert(''status'' \<mapsto> JStr ''cancelled'', ''resolved_at'' \<mapsto> JStr now)) of
                       Inl e \<Rightarrow> (Failed (DomError e), st)
                     | Inr (k, db') \<Rightarrow> (Success (), st\<lparr>idb := db', currentAlert := None\<rparr>)))))"

definition resolveSOS :: "app \<Rightarrow> string \<Rightarrow> key \<Rightarrow> string \<Rightarrow> unit outcome \<times> app" where
  "resolveSOS st now alertId notes =
     (case get (idb st) ''sos_alerts'' alertId of
        Inl e \<Rightarrow> (Failed (DomError e), st)
      | Inr None \<Rightarrow> (Failed (Msg ''Alert not found''), st)
      | Inr (Some alert) \<Rightarrow>
          (case update (idb st) ''sos_alerts''
                  (alert(''status'' \<mapsto> JStr ''resolved'', ''resolved_at'' \<mapsto> JStr now,
                         ''notes'' \<mapsto> JStr notes)) of
             Inl e \<Rightarrow> (Failed (DomError e), st)
           | Inr (k, db') \<Rightarrow> (Success (), st\<lparr>idb := db'\<rparr>)))"

text \<open>Sequences of the three operations, each with the inputs of its call.\<close>

datatype sos_op =
    Trigger string bool "jsobj option"
  | Cancel string
  | Resolve string key string

fun sos_step :: "app \<Rightarrow> sos_op \<Rightarrow> app" where
  "sos_step st (Trigger now is_safe location) = snd (triggerSOS st now is_safe location)"
| "sos_step st (Cancel now) = snd (cancelSOS st now)"
| "sos_step st (Resolve now alertId notes) = snd (resolveSOS st now alertId notes)"

definition alert_status :: "app \<Rightarrow> key \<Rightarrow> jsval option" where
  "alert_status st k =
     (case get (idb st) ''sos_alerts'' k of
        Inl e \<Rightarrow> None
      | Inr None \<Rightarrow> None
      | Inr (Some alert) \<Rightarrow> alert ''status'')"

definition settled :: "jsval option \<Rightarrow> bool" where
  "settled v = (v = Some (JStr ''cancelled'') \<or> v = Some (JStr ''resolved''))"

subsection \<open>Two sessions used in the examples\<close>

text \<open>A new database with a user logged in and no alert in flight.\<close>

definition fresh_session :: app where
  "fresh_session =
     \<lparr>idb = init None,
      currentUser = Some [''id'' \<mapsto> JNum 1, ''name'' \<mapsto> JStr ''Asha''],
      currentAlert = None\<rparr>"

text \<open>
  A database in which the logged-in user owns three emergency contacts and two pieces
  of evidence.
\<close>

definition cascade_session :: app where
  "cascade_session =
     \<lparr>idb = (init None)
        (''users'' \<mapsto>
           \<lparr>rows = [[''id'' \<mapsto> JNum 1, ''name'' \<mapsto> JStr ''Asha'',
                     ''phone_number'' \<mapsto> JStr ''9876543210'']],
            keygen = 2, indexes = [(''phone_number'', True), (''email'', False)]\<rparr>,
         ''emergency_contacts'' \<mapsto>
           \<lparr>rows = [[''id'' \<mapsto> JNum 1, ''user_id'' \<mapsto> JNum 1, ''name'' \<mapsto> JStr ''Mother''],
                    [''id'' \<mapsto> JNum 2, ''user_id'' \<mapsto> JNum 1, ''name'' \<mapsto> JStr ''Sister''],
                    [''id'' \<mapsto> JNum 3, ''user_id'' \<mapsto> JNum 1, ''name'' \<mapsto> JStr ''Friend'']],
            keygen = 4, indexes = [(''user_id'', False), (''contact_type'', False)]\<rparr>,
         ''evidence'' \<mapsto>
           \<lparr>rows = [[''id'' \<mapsto> JNum 1, ''user_id'' \<mapsto> JNum 1, ''type'' \<mapsto> JStr ''photo''],
                    [''id'' \<mapsto> JNum 2, ''user_id'' \<mapsto> JNum 1, ''type'' \<mapsto> JStr ''audio'']],
            keygen = 3,
            indexes = [(''user_id'', False), (''type'', False), (''created_at'', False)]\<rparr>),
      currentUser = Some [''id'' \<mapsto> JNum 1, ''name'' \<mapsto> JStr ''Asha'',
                          ''phone_number'' \<mapsto> JStr ''9876543210''],
      currentAlert = None\<rparr>"

section \<open>Derived queries\<close>

text \<open>
  The queries below compute with the numeric fields of the records they read, so the
  records are typed: a coordinate is a real or \<^verbatim>\<open>null\<close>, a count is a natural number.
  A store is then the list of its records in key order, which is what
  \<^verbatim>\<open>getAll\<close> answers, and \<^verbatim>\<open>getByIndex\<close> on \<^verbatim>\<open>user_id\<close> is a filter of it.
\<close>

subsection \<open>Utils.calculateDistance\<close>

text \<open>\<^verbatim>\<open>Math.atan2(y, x)\<close>, the angle of the point \<open>(x, y)\<close>.\<close>

definition atan2 :: "real \<Rightarrow> real \<Rightarrow> real" where
  "atan2 y x =
     (if 0 < x then arctan (y / x)
      else if x < 0 then (if 0 \<le> y then arctan (y / x) + pi else arctan (y / x) - pi)
      else if 0 < y then pi / 2
      else if y < 0 then - (pi / 2)
      else 0)"

definition calculateDistance :: "real \<Rightarrow> real \<Rightarrow> real \<Rightarrow> real \<Rightarrow> real" where
  "calculateDistance lat1 lon1 lat2 lon2 =
     (let R = 6371000;
          phi1 = lat1 * pi / 180;
          phi2 = lat2 * pi / 180;
          dphi = (lat2 - lat1) * pi / 180;
          dlam = (lon2 - lon1) * pi / 180;
          a = sin (dphi / 2) * sin (dphi / 2)
              + cos phi1 * cos phi2 * sin (dlam / 2) * sin (dlam / 2);
          c = 2 * atan2 (sqrt a) (sqrt (1 - a))
      in R * c)"

subsection \<open>CommunityManager\<close>

record responder =
  responder_id :: nat
  responder_name :: string
  responder_type :: string
  latitude :: "real option"
  longitude :: "real option"
  is_verified :: bool
  is_available :: bool
  rating :: real
  response_count :: nat

text \<open>The truth value of a coordinate in a condition: \<^verbatim>\<open>null\<close> and 0 are false.\<close>

definition truthy_num :: "real option \<Rightarrow> bool" where
  "truthy_num v = (case v of None \<Rightarrow> False | Some x \<Rightarrow> x \<noteq> 0)"

text \<open>
  The \<^verbatim>\<open>map\<close> step of \<^verbatim>\<open>getNearbyResponders\<close>: the responder with its distance in
  kilometres. It is applied to responders that passed the filter on coordinates.
\<close>

definition with_distance :: "real \<Rightarrow> real \<Rightarrow> responder \<Rightarrow> responder \<times> real" where
  "with_distance lat lng r =
     (r, calculateDistance lat lng
           (case latitude r of None \<Rightarrow> 0 | Some x \<Rightarrow> x)
           (case longitude r of None \<Rightarrow> 0 | Some y \<Rightarrow> y) / 1000)"

text \<open>
  \<^verbatim>\<open>getNearbyResponders(latitude, longitude, radiusKm = 10)\<close> over the responders of
  the store. The sort of the source is stable, as \<open>sort_key\<close> is.
\<close>

definition getNearbyResponders ::
    "responder list \<Rightarrow> real \<Rightarrow> real \<Rightarrow> real option \<Rightarrow> (responder \<times> real) list" where
  "getNearbyResponders allResponders lat lng radius_arg =
     (let radiusKm = (case radius_arg of None \<Rightarrow> 10 | Some r \<Rightarrow> r);
          respondersWithLocation =
            filter (\<lambda>r. truthy_num (latitude r) \<and> truthy_num (longitude r)) allResponders
      in sort_key snd
           (filter (\<lambda>r. snd r \<le> radiusKm) (map (with_distance lat lng) respondersWithLocation)))"

text \<open>\<^verbatim>\<open>dbManager.get\<close> and \<^verbatim>\<open>dbManager.update\<close> on the store of responders.\<close>

definition get_responder :: "responder list \<Rightarrow> nat \<Rightarrow> responder option" where
  "get_responder rs k = find (\<lambda>r. responder_id r = k) rs"

definition update_responder :: "responder list \<Rightarrow> responder \<Rightarrow> responder list" where
  "update_responder rs r =
     (if list_ex (\<lambda>x. responder_id x = responder_id r) rs
      then map (\<lambda>x. if responder_id x = responder_id r then r else x) rs
      else insort_key responder_id r rs)"

definition rateResponder ::
    "responder list \<Rightarrow> nat \<Rightarrow> real \<Rightarrow> responder outcome \<times> responder list" where
  "rateResponder rs responderId new_rating =
     (if new_rating < 0 \<or> new_rating > 5
      then (Failed (Msg ''Rating must be between 0 and 5''), rs)
      else case get_responder rs responderId of
             None \<Rightarrow> (Failed (Msg ''Responder not found''), rs)
           | Some r \<Rightarrow>
               (let totalRating = rating r * real (response_count r) + new_rating;
                    r1 = r\<lparr>response_count := response_count r + 1\<rparr>;
                    r2 = r1\<lparr>rating := totalRating / real (response_count r1)\<rparr>
                in (Success r2, update_responder rs r2)))"

subsection \<open>LocationManager\<close>

record safe_zone =
  zone_id :: nat
  zone_user_id :: nat
  zone_name :: string
  zone_latitude :: real
  zone_longitude :: real
  radius :: real
  is_active :: bool

text \<open>The loop of \<^verbatim>\<open>isInSafeZone\<close> over the active zones: it returns at the first hit.\<close>

fun zone_loop :: "real \<Rightarrow> real \<Rightarrow> safe_zone list \<Rightarrow> bool" where
  "zone_loop lat lng [] = False"
| "zone_loop lat lng (z # zs) =
     (if calculateDistance lat lng (zone_latitude z) (zone_longitude z) \<le> radius z then True
      else zone_loop lat lng zs)"

text \<open>
  \<open>user\<close> is the identifier of the current user, if one is logged in, and \<open>zones\<close>
  the store of safe zones.
\<close>

definition isInSafeZone :: "nat option \<Rightarrow> safe_zone list \<Rightarrow> real \<Rightarrow> real \<Rightarrow> bool" where
  "isInSafeZone user zones lat lng =
     (case user of
        None \<Rightarrow> False
      | Some uid \<Rightarrow>
          (let safeZones = filter (\<lambda>z. zone_user_id z = uid) zones;
               activeSafeZones = filter is_active safeZones
           in zone_loop lat lng activeSafeZones))"

text \<open>
  A record of the location history; \<open>timestamp\<close> is the time value, in milliseconds,
  that \<^verbatim>\<open>new Date(timestamp)\<close> gives for the stored string.
\<close>

record location_entry =
  entry_id :: nat
  entry_user_id :: nat
  entry_latitude :: real
  entry_longitude :: real
  timestamp :: int

text \<open>\<^verbatim>\<open>xs.slice(0, e)\<close>: a negative end counts from the end of the list.\<close>

definition slice0 :: "'a list \<Rightarrow> int \<Rightarrow> 'a list" where
  "slice0 xs e = (if e < 0 then take (nat (int (length xs) + e)) xs else take (nat e) xs)"

text \<open>
  \<^verbatim>\<open>getLocationHistory(limit = 100)\<close>; \<open>None\<close> is the call without an argument.
  The comparator is the difference of the time values, later first, and the sort is
  stable; the slice is taken only when the limit is not 0.
\<close>

definition getLocationHistory ::
    "nat option \<Rightarrow> location_entry list \<Rightarrow> int option \<Rightarrow> location_entry list" where
  "getLocationHistory user history limit_arg =
     (case user of
        None \<Rightarrow> []
      | Some uid \<Rightarrow>
          (let limit = (case limit_arg of None \<Rightarrow> 100 | Some l \<Rightarrow> l);
               locations = sort_key (\<lambda>l. - timestamp l)
                             (filter (\<lambda>l. entry_user_id l = uid) history)
           in if limit \<noteq> 0 then slice0 locations limit else locations))"

section \<open>The offline queue of APIService\<close>

text \<open>
  A queued request is an endpoint with the options of the call. The state of the
  service is the queue kept in local storage under \<^verbatim>\<open>safeher_offline_queue\<close> (absent
  until first written), the queue kept in memory, and the requests handed to
  \<^verbatim>\<open>fetch\<close> so far, in order.
\<close>

record queued_request =
  endpoint :: string
  options :: jsobj

record api =
  storage_queue :: "queued_request list option"
  offlineQueue :: "queued_request list"
  fetched :: "queued_request list"

text \<open>
  What the network does with a request: it is delivered, or it fails, and then
  \<^verbatim>\<open>navigator.onLine\<close> is read. The network is a function of the number of requests
  sent before and of the request.
\<close>

datatype net_reply = Delivered | Rejected bool

definition addToOfflineQueue :: "api \<Rightarrow> queued_request \<Rightarrow> api" where
  "addToOfflineQueue st req =
     st\<lparr>offlineQueue := offlineQueue st @ [req],
        storage_queue := Some (offlineQueue st @ [req])\<rparr>"

definition request :: "(nat \<Rightarrow> queued_request \<Rightarrow> net_reply) \<Rightarrow> api \<Rightarrow> queued_request \<Rightarrow> bool \<times> api" where
  "request net st req =
     (let st1 = st\<lparr>fetched := fetched st @ [req]\<rparr>
      in case net (length (fetched st)) req of
           Delivered \<Rightarrow> (True, st1)
         | Rejected online \<Rightarrow> (False, if \<not> online then addToOfflineQueue st1 req else st1))"

text \<open>The loop of \<^verbatim>\<open>processOfflineQueue\<close>, with the results it collects.\<close>

fun replay :: "(nat \<Rightarrow> queued_request \<Rightarrow> net_reply) \<Rightarrow> api \<Rightarrow> queued_request list \<Rightarrow> bool list \<times> api" where
  "replay net st [] = ([], st)"
| "replay net st (req # reqs) =
     (let (result, st1) = request net st req;
          (results, st2) = replay net st1 reqs
      in (result # results, st2))"

definition pending :: "api \<Rightarrow> queued_request list" where
  "pending st = (case storage_queue st of None \<Rightarrow> [] | Some q \<Rightarrow> q)"

definition processOfflineQueue ::
    "(nat \<Rightarrow> queued_request \<Rightarrow> net_reply) \<Rightarrow> api \<Rightarrow> bool list option \<times> api" where
  "processOfflineQueue net st =
     (let queue = pending st
      in if queue = [] then (None, st)
         else (let (results, st1) = replay net st queue
               in (Some results, st1\<lparr>storage_queue := None, offlineQueue := []\<rparr>)))"

section \<open>Properties of the persistence engine\<close>








lemma to_key_Some: "to_key (Some x) = Some k \<Longrightarrow> x = key_val k"
  by (cases x) auto

lemma to_key_key_val: "to_key (Some (key_val k)) = Some k"
  by (cases k) auto

lemma set_insert_row: "set (insert_row v rs) = insert v (set rs)"
  by (induction rs) auto

lemma find_insert_row_new:
  "P v \<Longrightarrow> \<forall>r\<in>set rs. \<not> P r \<Longrightarrow> find P (insert_row v rs) = Some v"
  by (induction rs) auto

lemma finish_store_add:
  assumes "finish_store True s k v = Inr (k', s')" and "key_of v = Some k"
  shows "k' = k \<and> store_get s' k = Some v \<and> v \<in> set (rows s')
         \<and> indexes s' = indexes s \<and> keygen s' = keygen s"
  using assms
  by (auto simp: finish_store_def write_row_def store_get_def has_key_def list_ex_iff
      set_insert_row find_insert_row_new split: if_splits)

lemma store_record_add:
  assumes "store_record True s v = Inr (k, s')"
  shows "store_get s' k = Some (v(''id'' \<mapsto> key_val k))
         \<and> v(''id'' \<mapsto> key_val k) \<in> set (rows s') \<and> indexes s' = indexes s"
proof (cases "v ''id''")
  case None
  with assms have f: "finish_store True (s\<lparr>keygen := keygen s + 1\<rparr>)
       (KNum (real (keygen s))) (v(''id'' \<mapsto> JNum (real (keygen s)))) = Inr (k, s')"
    by (simp add: store_record_def split: if_splits)
  have "key_of (v(''id'' \<mapsto> JNum (real (keygen s)))) = Some (KNum (real (keygen s)))"
    by (simp add: key_of_def)
  from finish_store_add [OF f this] show ?thesis by auto
next
  case (Some x)
  with assms obtain k0 where k0: "to_key (Some x) = Some k0"
    and f: "finish_store True (s\<lparr>keygen := bump (keygen s) k0\<rparr>) k0 v = Inr (k, s')"
    by (auto simp: store_record_def split: option.splits)
  have kv: "key_of v = Some k0" using Some k0 by (simp add: key_of_def)
  from finish_store_add [OF f kv] have *: "k = k0" "store_get s' k0 = Some v"
    "v \<in> set (rows s')" "indexes s' = indexes s" by auto
  have "v ''id'' = Some (key_val k0)" using Some to_key_Some [OF k0] by simp
  then have "v(''id'' \<mapsto> key_val k0) = v" by (simp add: fun_upd_idem)
  with * show ?thesis by simp
qed

text \<open>
  Claim C8, as the code has it. A record inserted with \<^verbatim>\<open>add\<close> is read back by
  \<^verbatim>\<open>get\<close> under the returned identifier, equal to the input in every property but
  two: \<^verbatim>\<open>id\<close> holds the primary key, and \<^verbatim>\<open>created_at\<close> holds the input's
  value when that value is truthy and the time of the call otherwise, that is when the
  property is absent, \<^verbatim>\<open>null\<close>, \<^verbatim>\<open>false\<close>, 0 or the empty string.
\<close>

theorem add_get_roundtrip:
  assumes "add db now storeName data = Inr (k, db')"
  shows "\<exists>r. get db' storeName k = Inr (Some r)
           \<and> (\<forall>f. f \<noteq> ''id'' \<and> f \<noteq> ''created_at'' \<longrightarrow> r f = data f)
           \<and> r ''id'' = Some (key_val k)
           \<and> r ''created_at'' =
               (if truthy (data ''created_at'') then data ''created_at'' else Some (JStr now))"
proof -
  from assms obtain s s' where s: "db storeName = Some s"
    and r: "store_record True s (if \<not> truthy (data ''created_at'')
                        then data(''created_at'' \<mapsto> JStr now) else data) = Inr (k, s')"
    and d: "db' = db(storeName \<mapsto> s')"
    by (auto simp: add_def Let_def split: option.splits sum.splits)
  from store_record_add [OF r] d show ?thesis
    by (auto simp: get_def)
qed


lemma init_users:
  "init None ''users'' = Some (new_store [(''phone_number'', True), (''email'', False)])"
  by (simp add: init_def upgrade_def ensure_store_def)

lemma add_first_user: "\<exists>db'. add (init None) ''2024-05-01T10:00:00.000Z'' ''users''
       [''name'' \<mapsto> JStr ''Asha'', ''phone_number'' \<mapsto> JNull] = Inr (KNum 1, db')"
    by (simp add: add_def init_users store_record_def finish_store_def has_key_def
        unique_clash_def write_row_def new_store_def)


theorem add_get_roundtrip_witness:
  "\<exists>db'. add (init None) ''2024-05-01T10:00:00.000Z'' ''users''
           [''name'' \<mapsto> JStr ''Asha'', ''phone_number'' \<mapsto> JNull] = Inr (KNum 1, db')
     \<and> (\<exists>r. get db' ''users'' (KNum 1) = Inr (Some r)
          \<and> r ''name'' = Some (JStr ''Asha'')
          \<and> r ''phone_number'' = Some JNull
          \<and> r ''id'' = Some (JNum 1)
          \<and> r ''created_at'' = Some (JStr ''2024-05-01T10:00:00.000Z''))"
proof -
  from add_first_user obtain db' where h: "add (init None) ''2024-05-01T10:00:00.000Z'' ''users''
       [''name'' \<mapsto> JStr ''Asha'', ''phone_number'' \<mapsto> JNull] = Inr (KNum 1, db')"
    by blast
  from add_get_roundtrip [OF h] obtain r where
    r: "get db' ''users'' (KNum 1) = Inr (Some r)"
      "\<forall>f. f \<noteq> ''id'' \<and> f \<noteq> ''created_at'' \<longrightarrow>
         r f = [''name'' \<mapsto> JStr ''Asha'', ''phone_number'' \<mapsto> JNull] f"
      "r ''id'' = Some (key_val (KNum 1))"
      "r ''created_at'' = Some (JStr ''2024-05-01T10:00:00.000Z'')"
    by auto
  from r(2) have "r ''name'' = Some (JStr ''Asha'')" "r ''phone_number'' = Some JNull"
    by simp_all
  with h r show ?thesis by auto
qed


text \<open>
  The stamp is not reserved to inputs without the property: a record whose
  \<^verbatim>\<open>created_at\<close> is present and \<^verbatim>\<open>null\<close> comes back with the time of the call.
\<close>

theorem add_stamps_null_created_at:
  "(case add (init None) ''2024-05-01T10:00:00.000Z'' ''users'' [''created_at'' \<mapsto> JNull] of
      Inl e \<Rightarrow> False
    | Inr (k, db') \<Rightarrow>
        get db' ''users'' k
          = Inr (Some [''created_at'' \<mapsto> JStr ''2024-05-01T10:00:00.000Z'', ''id'' \<mapsto> JNum 1]))
   \<and> [''created_at'' \<mapsto> JNull] ''created_at'' = Some JNull"
proof -
  have a: "add (init None) ''2024-05-01T10:00:00.000Z'' ''users'' [''created_at'' \<mapsto> JNull]
    = Inr (KNum 1, (init None)(''users'' \<mapsto>
         \<lparr>rows = [[''created_at'' \<mapsto> JStr ''2024-05-01T10:00:00.000Z'', ''id'' \<mapsto> JNum 1]],
          keygen = Suc (Suc 0), indexes = [(''phone_number'', True), (''email'', False)]\<rparr>))"
    by (simp add: add_def init_users store_record_def finish_store_def has_key_def
        unique_clash_def write_row_def new_store_def)
  have b: "get ((init None)(''users'' \<mapsto>
         \<lparr>rows = [[''created_at'' \<mapsto> JStr ''2024-05-01T10:00:00.000Z'', ''id'' \<mapsto> JNum 1]],
          keygen = Suc (Suc 0), indexes = [(''phone_number'', True), (''email'', False)]\<rparr>))
        ''users'' (KNum 1)
     = Inr (Some [''created_at'' \<mapsto> JStr ''2024-05-01T10:00:00.000Z'', ''id'' \<mapsto> JNum 1])"
    by (simp add: get_def store_get_def key_of_def)
  show ?thesis by (simp add: a b)
qed


lemma unique_paths_upd [simp]:
  "unique_paths (s\<lparr>keygen := g\<rparr>) = unique_paths s"
  "unique_paths (s\<lparr>rows := rs\<rparr>) = unique_paths s"
  by (simp_all add: unique_paths_def)

lemma finish_store_clash:
  assumes "r \<in> set (rows s)" and "p \<in> set (unique_paths s)"
    and "to_key (v p) \<noteq> None" and "to_key (r p) = to_key (v p)"
  shows "finish_store True s k v = Inl ConstraintError"
proof (cases "key_of r = Some k")
  case True
  with assms(1) have "has_key s k" by (auto simp: has_key_def list_ex_iff)
  then show ?thesis by (simp add: finish_store_def)
next
  case False
  with assms have "unique_clash s k v"
    by (auto simp: unique_clash_def list_ex_iff intro!: bexI [of _ r] bexI [of _ p])
  then show ?thesis by (simp add: finish_store_def)
qed

lemma store_record_clash:
  assumes "r \<in> set (rows s)" and "p \<in> set (unique_paths s)" and "p \<noteq> ''id''"
    and "to_key (v p) \<noteq> None" and "to_key (r p) = to_key (v p)"
    and "v ''id'' = None \<or> to_key (v ''id'') \<noteq> None"
  shows "store_record True s v = Inl ConstraintError"
proof (cases "v ''id''")
  case None
  have "finish_store True (s\<lparr>keygen := keygen s + 1\<rparr>) (KNum (real (keygen s)))
          (v(''id'' \<mapsto> JNum (real (keygen s)))) = Inl ConstraintError"
    using assms(1-5) by (intro finish_store_clash [of r _ p]) auto
  with None show ?thesis by (simp add: store_record_def)
next
  case (Some x)
  with assms(6) obtain k where k: "to_key (Some x) = Some k" by auto
  have "finish_store True (s\<lparr>keygen := bump (keygen s) k\<rparr>) k v = Inl ConstraintError"
    using assms(1-5) by (intro finish_store_clash [of r _ p]) auto
  with Some k show ?thesis by (simp add: store_record_def)
qed

lemma store_record_fresh:
  assumes "keys_below s" and "keygen s \<le> 2 ^ 53" and "v ''id'' = None"
    and "''id'' \<notin> set (unique_paths s)"
    and "\<forall>p\<in>set (unique_paths s). to_key (v p) = None"
  shows "\<exists>s'. store_record True s v = Inr (KNum (real (keygen s)), s')
           \<and> keys_below s' \<and> keygen s' = keygen s + 1 \<and> indexes s' = indexes s"
proof -
  let ?k = "KNum (real (keygen s))"
  let ?v = "v(''id'' \<mapsto> JNum (real (keygen s)))"
  let ?s = "s\<lparr>keygen := keygen s + 1\<rparr>"
  have nk: "\<not> has_key ?s ?k"
    using assms(1) by (auto simp: has_key_def keys_below_def list_ex_iff list_all_iff)
  have nc: "\<not> unique_clash ?s ?k ?v"
    using assms(4,5) by (auto simp: unique_clash_def list_ex_iff)
  have kb: "keys_below (?s\<lparr>rows := insert_row ?v (rows s)\<rparr>)"
    using assms(1)
    by (auto simp: keys_below_def list_all_iff set_insert_row key_of_def
        split: option.splits key.splits)
  from nk nc have "finish_store True ?s ?k ?v = Inr (?k, ?s\<lparr>rows := insert_row ?v (rows s)\<rparr>)"
    by (simp add: finish_store_def write_row_def)
  with assms(2,3) kb show ?thesis
    by (simp add: store_record_def)
qed


lemma add_Inr_store:
  assumes "add db now storeName data = Inr (k, db')"
  shows "\<exists>s s'. db storeName = Some s \<and> db' = db(storeName \<mapsto> s')
           \<and> store_record True s (if \<not> truthy (data ''created_at'')
                 then data(''created_at'' \<mapsto> JStr now) else data) = Inr (k, s')"
  using assms by (auto simp: add_def Let_def split: option.splits sum.splits)

subsection \<open>Reading a store after a write\<close>

lemma find_insert_row_other: "\<not> P v \<Longrightarrow> find P (insert_row v rs) = find P rs"
  by (induction rs) auto

lemma find_map_replace:
  assumes "key_of v = Some k'"
  shows "find (\<lambda>r. key_of r = Some k) (map (\<lambda>r. if key_of r = Some k' then v else r) rs)
       = (if k = k' then (if \<exists>r\<in>set rs. key_of r = Some k' then Some v else None)
          else find (\<lambda>r. key_of r = Some k) rs)"
  using assms by (induction rs) auto

lemma write_row_get:
  assumes "key_of v = Some k'"
  shows "find (\<lambda>r. key_of r = Some k) (write_row k' v s)
       = (if k = k' then Some v else store_get s k)"
proof (cases "has_key s k'")
  case True
  then show ?thesis
    using find_map_replace [OF assms, of k "rows s"]
    by (auto simp: write_row_def has_key_def list_ex_iff store_get_def)
next
  case False
  then have "\<forall>r\<in>set (rows s). \<not> key_of r = Some k'"
    by (simp add: has_key_def list_ex_iff)
  then show ?thesis
    using False assms
    by (auto simp: write_row_def store_get_def find_insert_row_new find_insert_row_other)
qed

lemma finish_store_get:
  assumes "finish_store b s k' v = Inr (k'', s')" and "key_of v = Some k'"
  shows "k'' = k' \<and> store_get s' k = (if k = k' then Some v else store_get s k)"
  using assms write_row_get [OF assms(2), of k s]
  by (auto simp: finish_store_def store_get_def split: if_splits)

lemma store_get_keygen [simp]: "store_get (s\<lparr>keygen := g\<rparr>) k = store_get s k"
  by (simp add: store_get_def)

lemma store_record_get:
  assumes "store_record b s v = Inr (k', s')"
  shows "store_get s' k = (if k = k' then Some (v(''id'' \<mapsto> key_val k')) else store_get s k)"
proof (cases "v ''id''")
  case None
  with assms have f: "finish_store b (s\<lparr>keygen := keygen s + 1\<rparr>)
       (KNum (real (keygen s))) (v(''id'' \<mapsto> JNum (real (keygen s)))) = Inr (k', s')"
    by (simp add: store_record_def split: if_splits)
  have "key_of (v(''id'' \<mapsto> JNum (real (keygen s)))) = Some (KNum (real (keygen s)))"
    by (simp add: key_of_def)
  from finish_store_get [OF f this, of k] show ?thesis by auto
next
  case (Some x)
  with assms obtain k0 where k0: "to_key (Some x) = Some k0"
    and f: "finish_store b (s\<lparr>keygen := bump (keygen s) k0\<rparr>) k0 v = Inr (k', s')"
    by (auto simp: store_record_def split: option.splits)
  have kv: "key_of v = Some k0" using Some k0 by (simp add: key_of_def)
  have "v ''id'' = Some (key_val k0)" using Some to_key_Some [OF k0] by simp
  then have "v(''id'' \<mapsto> key_val k0) = v" by (simp add: fun_upd_idem)
  with finish_store_get [OF f kv, of k] show ?thesis by auto
qed

lemma store_record_new:
  assumes "store_record True s v = Inr (k', s')"
  shows "store_get s k' = None"
proof -
  have *: "\<And>s0 k v0. finish_store True s0 k v0 = Inr (k', s') \<Longrightarrow> rows s0 = rows s
             \<Longrightarrow> store_get s k' = None"
    by (auto simp: finish_store_def has_key_def list_ex_iff store_get_def find_None_iff
        split: if_splits)
  show ?thesis using assms
    by (auto simp: store_record_def split: option.splits if_splits dest!: *)
qed

lemma update_get:
  assumes "update d name v = Inr (k', d')"
  shows "get d' name k = (if k = k' then Inr (Some (v(''id'' \<mapsto> key_val k'))) else get d name k)"
    and "name' \<noteq> name \<Longrightarrow> d' name' = d name'"
  using assms
  by (auto simp: update_def get_def store_record_get split: option.splits sum.splits)

lemma add_other_store:
  assumes "add d now name v = Inr (k', d')" and "name' \<noteq> name"
  shows "d' name' = d name'"
  using assms by (auto simp: add_def Let_def split: option.splits sum.splits)

lemma add_get:
  assumes "add d now name v = Inr (k', d')"
  shows "get d' name k =
           (if k = k'
            then Inr (Some ((if \<not> truthy (v ''created_at'')
                             then v(''created_at'' \<mapsto> JStr now) else v)(''id'' \<mapsto> key_val k')))
            else get d name k)"
    and "get d name k' = Inr None"
proof -
  from add_Inr_store [OF assms] obtain s s' where s: "d name = Some s" "d' = d(name \<mapsto> s')"
    "store_record True s (if \<not> truthy (v ''created_at'')
                 then v(''created_at'' \<mapsto> JStr now) else v) = Inr (k', s')" by blast
  show "get d' name k =
           (if k = k'
            then Inr (Some ((if \<not> truthy (v ''created_at'')
                             then v(''created_at'' \<mapsto> JStr now) else v)(''id'' \<mapsto> key_val k')))
            else get d name k)"
    using s(1,2) store_record_get [OF s(3), of k] by (simp add: get_def)
  show "get d name k' = Inr None"
    using s(1) store_record_new [OF s(3)] by (simp add: get_def)
qed


subsection \<open>The unique index of the users\<close>

text \<open>
  Claim C7, as the code has it. The \<^verbatim>\<open>users\<close> store has one unique index, on
  \<^verbatim>\<open>phone_number\<close>, and the index holds a record only when its phone number is a
  valid key, a string or a number. When a first user has been inserted and a second
  record carries the same string or number as its phone number, with no identifier of
  its own or a valid one, the second insert fails with \<^verbatim>\<open>ConstraintError\<close> and the
  database is exactly what it was before the call. A phone number that is not a valid
  key (\<^verbatim>\<open>null\<close>, as for guests, but also a missing one or a boolean) is not in the
  index: two such records without an identifier are both inserted, under different
  keys, in a store whose key generator is ahead of its keys and below its limit.
\<close>

theorem users_phone_number_unique:
  assumes "db ''users'' = Some s" and "unique_paths s = [''phone_number'']"
  shows "(\<forall>k1 db1. add db t1 ''users'' u1 = Inr (k1, db1)
            \<and> to_key (u1 ''phone_number'') \<noteq> None
            \<and> u2 ''phone_number'' = u1 ''phone_number''
            \<and> (u2 ''id'' = None \<or> to_key (u2 ''id'') \<noteq> None)
          \<longrightarrow> add_txn db1 t2 ''users'' u2 = (Inl ConstraintError, db1))
       \<and> (keys_below s \<and> keygen s < 2 ^ 53 \<and> u1 ''id'' = None \<and> u2 ''id'' = None
            \<and> to_key (u1 ''phone_number'') = None \<and> to_key (u2 ''phone_number'') = None
          \<longrightarrow> (\<exists>k1 db1 k2 db2. add_txn db t1 ''users'' u1 = (Inr k1, db1)
                 \<and> add_txn db1 t2 ''users'' u2 = (Inr k2, db2) \<and> k1 \<noteq> k2
                 \<and> get db2 ''users'' k1
                     = Inr (Some ((if \<not> truthy (u1 ''created_at'')
                                   then u1(''created_at'' \<mapsto> JStr t1) else u1)
                                  (''id'' \<mapsto> key_val k1)))
                 \<and> get db2 ''users'' k2
                     = Inr (Some ((if \<not> truthy (u2 ''created_at'')
                                   then u2(''created_at'' \<mapsto> JStr t2) else u2)
                                  (''id'' \<mapsto> key_val k2)))))"
proof (intro conjI allI impI)
  fix k1 db1
  let ?v1 = "if \<not> truthy (u1 ''created_at'') then u1(''created_at'' \<mapsto> JStr t1) else u1"
  let ?v2 = "if \<not> truthy (u2 ''created_at'') then u2(''created_at'' \<mapsto> JStr t2) else u2"
  assume a: "add db t1 ''users'' u1 = Inr (k1, db1)
            \<and> to_key (u1 ''phone_number'') \<noteq> None
            \<and> u2 ''phone_number'' = u1 ''phone_number''
            \<and> (u2 ''id'' = None \<or> to_key (u2 ''id'') \<noteq> None)"
  with add_Inr_store [of db t1 "''users''" u1 k1 db1] assms(1)
  obtain s1 where s1: "db1 = db(''users'' \<mapsto> s1)" "store_record True s ?v1 = Inr (k1, s1)"
    by auto
  from store_record_add [OF s1(2)]
  have r: "?v1(''id'' \<mapsto> key_val k1) \<in> set (rows s1)" and ix: "indexes s1 = indexes s"
    by auto
  have up: "unique_paths s1 = [''phone_number'']"
    using ix assms(2) by (simp add: unique_paths_def)
  have "store_record True s1 ?v2 = Inl ConstraintError"
  proof (rule store_record_clash [OF r, of "''phone_number''"])
    show "''phone_number'' \<in> set (unique_paths s1)" using up by simp
    show "''phone_number'' \<noteq> ''id''" by simp
    show "to_key (?v2 ''phone_number'') \<noteq> None" using a by simp
    show "to_key ((?v1(''id'' \<mapsto> key_val k1)) ''phone_number'') = to_key (?v2 ''phone_number'')"
      using a by simp
    show "?v2 ''id'' = None \<or> to_key (?v2 ''id'') \<noteq> None" using a by simp
  qed
  then show "add_txn db1 t2 ''users'' u2 = (Inl ConstraintError, db1)"
    using s1(1) by (simp add: add_txn_def add_def)
next
  let ?v1 = "if \<not> truthy (u1 ''created_at'') then u1(''created_at'' \<mapsto> JStr t1) else u1"
  let ?v2 = "if \<not> truthy (u2 ''created_at'') then u2(''created_at'' \<mapsto> JStr t2) else u2"
  assume n: "keys_below s \<and> keygen s < 2 ^ 53 \<and> u1 ''id'' = None \<and> u2 ''id'' = None
            \<and> to_key (u1 ''phone_number'') = None \<and> to_key (u2 ''phone_number'') = None"
  have "\<exists>s1. store_record True s ?v1 = Inr (KNum (real (keygen s)), s1)
           \<and> keys_below s1 \<and> keygen s1 = keygen s + 1 \<and> indexes s1 = indexes s"
    using assms n by (intro store_record_fresh) auto
  then obtain s1 where s1: "store_record True s ?v1 = Inr (KNum (real (keygen s)), s1)"
    "keys_below s1" "keygen s1 = keygen s + 1" "indexes s1 = indexes s" by blast
  have up: "unique_paths s1 = [''phone_number'']"
    using s1(4) assms(2) by (simp add: unique_paths_def)
  have "\<exists>s2. store_record True s1 ?v2 = Inr (KNum (real (keygen s1)), s2)
           \<and> keys_below s2 \<and> keygen s2 = keygen s1 + 1 \<and> indexes s2 = indexes s1"
    using assms n s1 up by (intro store_record_fresh) auto
  then obtain s2 where s2: "store_record True s1 ?v2 = Inr (KNum (real (keygen s1)), s2)"
    by blast
  let ?k1 = "KNum (real (keygen s))" and ?k2 = "KNum (real (keygen s1))"
  let ?db1 = "db(''users'' \<mapsto> s1)"
  let ?db2 = "?db1(''users'' \<mapsto> s2)"
  have 1: "add db t1 ''users'' u1 = Inr (?k1, ?db1)"
    using assms(1) s1(1) by (simp add: add_def)
  have 2: "add ?db1 t2 ''users'' u2 = Inr (?k2, ?db2)"
    using s2 by (simp add: add_def)
  have ne: "?k1 \<noteq> ?k2" using s1(3) by simp
  have g2: "get ?db2 ''users'' ?k2 = Inr (Some (?v2(''id'' \<mapsto> key_val ?k2)))"
    using add_get(1) [OF 2, of ?k2] by simp
  have "get ?db1 ''users'' ?k1 = Inr (Some (?v1(''id'' \<mapsto> key_val ?k1)))"
    using add_get(1) [OF 1, of ?k1] by simp
  moreover have "get ?db2 ''users'' ?k1 = get ?db1 ''users'' ?k1"
    using add_get(1) [OF 2, of ?k1] ne by simp
  ultimately have g1: "get ?db2 ''users'' ?k1 = Inr (Some (?v1(''id'' \<mapsto> key_val ?k1)))"
    by simp
  from 1 2 ne g1 g2
  show "\<exists>k1 db1 k2 db2. add_txn db t1 ''users'' u1 = (Inr k1, db1)
                 \<and> add_txn db1 t2 ''users'' u2 = (Inr k2, db2) \<and> k1 \<noteq> k2
                 \<and> get db2 ''users'' k1 = Inr (Some (?v1(''id'' \<mapsto> key_val k1)))
                 \<and> get db2 ''users'' k2 = Inr (Some (?v2(''id'' \<mapsto> key_val k2)))"
    by (intro exI [of _ ?k1] exI [of _ ?db1] exI [of _ ?k2] exI [of _ ?db2])
      (simp add: add_txn_def)
qed

lemma new_users_store:
  "unique_paths (new_store [(''phone_number'', True), (''email'', False)]) = [''phone_number'']"
  "keys_below (new_store [(''phone_number'', True), (''email'', False)])"
  "keygen (new_store [(''phone_number'', True), (''email'', False)]) < 2 ^ 53"
  by (simp_all add: unique_paths_def keys_below_def new_store_def)

theorem users_phone_number_unique_witness:
  "(\<exists>db1. add (init None) ''2024-05-01T10:00:00.000Z'' ''users''
             [''name'' \<mapsto> JStr ''Asha'', ''phone_number'' \<mapsto> JStr ''9876543210'']
           = Inr (KNum 1, db1)
        \<and> add_txn db1 ''2024-05-02T10:00:00.000Z'' ''users''
             [''name'' \<mapsto> JStr ''Bina'', ''phone_number'' \<mapsto> JStr ''9876543210'']
           = (Inl ConstraintError, db1))
   \<and> (\<exists>k1 db1 k2 db2.
          add_txn (init None) ''2024-05-01T10:00:00.000Z'' ''users''
             [''name'' \<mapsto> JStr ''Guest User'', ''phone_number'' \<mapsto> JNull] = (Inr k1, db1)
        \<and> add_txn db1 ''2024-05-02T10:00:00.000Z'' ''users''
             [''name'' \<mapsto> JStr ''Guest User'', ''phone_number'' \<mapsto> JNull] = (Inr k2, db2)
        \<and> k1 \<noteq> k2)"
proof -
  have "\<exists>db1. add (init None) ''2024-05-01T10:00:00.000Z'' ''users''
             [''name'' \<mapsto> JStr ''Asha'', ''phone_number'' \<mapsto> JStr ''9876543210'']
           = Inr (KNum 1, db1)"
    by (simp add: add_def init_users store_record_def finish_store_def has_key_def
        unique_clash_def write_row_def new_store_def)
  then obtain db1 where h: "add (init None) ''2024-05-01T10:00:00.000Z'' ''users''
             [''name'' \<mapsto> JStr ''Asha'', ''phone_number'' \<mapsto> JStr ''9876543210'']
           = Inr (KNum 1, db1)" by blast
  have a: "add_txn db1 ''2024-05-02T10:00:00.000Z'' ''users''
             [''name'' \<mapsto> JStr ''Bina'', ''phone_number'' \<mapsto> JStr ''9876543210'']
           = (Inl ConstraintError, db1)"
    using users_phone_number_unique [where db = "init None"
          and s = "new_store [(''phone_number'', True), (''email'', False)]"
          and ?u1.0 = "[''name'' \<mapsto> JStr ''Asha'', ''phone_number'' \<mapsto> JStr ''9876543210'']"
          and ?u2.0 = "[''name'' \<mapsto> JStr ''Bina'', ''phone_number'' \<mapsto> JStr ''9876543210'']"
          and ?t1.0 = "''2024-05-01T10:00:00.000Z''" and ?t2.0 = "''2024-05-02T10:00:00.000Z''"]
      init_users new_users_store h
    by simp
  have b: "\<exists>k1 db1 k2 db2.
          add_txn (init None) ''2024-05-01T10:00:00.000Z'' ''users''
             [''name'' \<mapsto> JStr ''Guest User'', ''phone_number'' \<mapsto> JNull] = (Inr k1, db1)
        \<and> add_txn db1 ''2024-05-02T10:00:00.000Z'' ''users''
             [''name'' \<mapsto> JStr ''Guest User'', ''phone_number'' \<mapsto> JNull] = (Inr k2, db2)
        \<and> k1 \<noteq> k2"
    using users_phone_number_unique [where db = "init None"
          and s = "new_store [(''phone_number'', True), (''email'', False)]"
          and ?u1.0 = "[''name'' \<mapsto> JStr ''Guest User'', ''phone_number'' \<mapsto> JNull]"
          and ?u2.0 = "[''name'' \<mapsto> JStr ''Guest User'', ''phone_number'' \<mapsto> JNull]"
          and ?t1.0 = "''2024-05-01T10:00:00.000Z''" and ?t2.0 = "''2024-05-02T10:00:00.000Z''"]
      init_users new_users_store
    by auto
  from h a b show ?thesis by blast
qed

text \<open>
  A phone number that is not \<^verbatim>\<open>null\<close> need not be in the index: two users whose
  phone number is \<^verbatim>\<open>true\<close> are both inserted.
\<close>

theorem users_boolean_phone_number:
  "(case add (init None) ''2024-05-01T10:00:00.000Z'' ''users''
           [''name'' \<mapsto> JStr ''Asha'', ''phone_number'' \<mapsto> JBool True] of
      Inl e \<Rightarrow> False
    | Inr (k1, db1) \<Rightarrow>
        (case add db1 ''2024-05-02T10:00:00.000Z'' ''users''
                [''name'' \<mapsto> JStr ''Bina'', ''phone_number'' \<mapsto> JBool True] of
           Inl e \<Rightarrow> False
         | Inr (k2, db2) \<Rightarrow> k1 = KNum 1 \<and> k2 = KNum 2))
   \<and> [''name'' \<mapsto> JStr ''Asha'', ''phone_number'' \<mapsto> JBool True] ''phone_number''
       = [''name'' \<mapsto> JStr ''Bina'', ''phone_number'' \<mapsto> JBool True] ''phone_number''
   \<and> [''name'' \<mapsto> JStr ''Asha'', ''phone_number'' \<mapsto> JBool True] ''phone_number'' \<noteq> Some JNull"
  by (simp add: add_def init_users store_record_def finish_store_def has_key_def
      unique_clash_def unique_paths_def write_row_def new_store_def key_of_def Let_def)

section \<open>Properties of the managers\<close>

subsection \<open>The status of an SOS alert\<close>

lemma alert_status_cong:
  "idb st' ''sos_alerts'' = idb st ''sos_alerts'' \<Longrightarrow> alert_status st' k = alert_status st k"
  by (simp add: alert_status_def get_def)

lemma saveLocation_alerts:
  "idb (snd (saveLocation st now b l)) ''sos_alerts'' = idb st ''sos_alerts''"
  by (auto simp: saveLocation_def Let_def split: option.splits sum.splits
      dest: add_other_store [where name' = "''sos_alerts''"])

lemma trigger_effect:
  "(alert_status (snd (triggerSOS st now b loc)) k = alert_status st k
    \<or> alert_status st k = None
      \<and> alert_status (snd (triggerSOS st now b loc)) k = Some (JStr ''active''))
   \<and> (\<forall>a st'. triggerSOS st now b loc = (Success a, st') \<longrightarrow>
         (\<exists>k'. to_key (a ''id'') = Some k' \<and> alert_status st k' = None
               \<and> alert_status st' k' = Some (JStr ''active'')))"
proof (cases "currentUser st")
  case None
  then show ?thesis by (simp add: triggerSOS_def)
next
  case (Some user)
  let ?a = "(Map.empty(''user_id'' := user ''id''))
                 (''triggered_at'' \<mapsto> JStr now,
                  ''location_lat'' \<mapsto>
                     (case loc of None \<Rightarrow> JNull | Some l \<Rightarrow> or_else (l ''latitude'') JNull),
                  ''location_lng'' \<mapsto>
                     (case loc of None \<Rightarrow> JNull | Some l \<Rightarrow> or_else (l ''longitude'') JNull),
                  ''location_address'' \<mapsto> JNull,
                  ''status'' \<mapsto> JStr ''active'',
                  ''notes'' \<mapsto> JStr [])"
  show ?thesis
  proof (cases "add (idb st) now ''sos_alerts'' ?a")
    case (Inl e)
    with Some show ?thesis by (simp add: triggerSOS_def)
  next
    case (Inr p)
    obtain alertId db' where p: "p = (alertId, db')" by (cases p)
    let ?a' = "?a(''created_at'' \<mapsto> JStr now, ''id'' \<mapsto> key_val alertId)"
    let ?st' = "st\<lparr>idb := db', currentAlert := Some ?a'\<rparr>"
    have res: "fst (triggerSOS st now b loc) = Success ?a'"
      using Some Inr p by (simp add: triggerSOS_def Let_def)
    have fin: "\<And>k. alert_status (snd (triggerSOS st now b loc)) k = alert_status ?st' k"
      using Some Inr p
      by (cases loc) (simp_all add: triggerSOS_def Let_def alert_status_cong saveLocation_alerts)
    from Inr p have a: "add (idb st) now ''sos_alerts'' ?a = Inr (alertId, db')" by simp
    have new: "alert_status ?st' alertId = Some (JStr ''active'')"
      using add_get(1) [OF a, of alertId] by (simp add: alert_status_def)
    have old: "alert_status st alertId = None"
      using add_get(2) [OF a] by (simp add: alert_status_def)
    have other: "k \<noteq> alertId \<Longrightarrow> alert_status ?st' k = alert_status st k"
      using add_get(1) [OF a, of k] by (simp add: alert_status_def)
    have 1: "alert_status (snd (triggerSOS st now b loc)) k = alert_status st k
       \<or> alert_status st k = None
         \<and> alert_status (snd (triggerSOS st now b loc)) k = Some (JStr ''active'')"
      using new old other fin by (cases "k = alertId") auto
    have 2: "\<forall>a st'. triggerSOS st now b loc = (Success a, st') \<longrightarrow>
         (\<exists>k'. to_key (a ''id'') = Some k' \<and> alert_status st k' = None
               \<and> alert_status st' k' = Some (JStr ''active''))"
    proof (intro allI impI)
      fix a0 st0
      assume t: "triggerSOS st now b loc = (Success a0, st0)"
      with res have "a0 = ?a'" by simp
      then have "to_key (a0 ''id'') = Some alertId" by (simp add: to_key_key_val)
      moreover have "alert_status st0 alertId = Some (JStr ''active'')"
        using fin [of alertId] new t by simp
      ultimately show "\<exists>k'. to_key (a0 ''id'') = Some k' \<and> alert_status st k' = None
               \<and> alert_status st0 k' = Some (JStr ''active'')"
        using old by blast
    qed
    from 1 2 show ?thesis by blast
  qed
qed

lemma get_Some_key:
  "get d name k = Inr (Some r) \<Longrightarrow> to_key (r ''id'') = Some k"
  by (auto simp: get_def store_get_def key_of_def find_Some_iff split: option.splits)

lemma store_record_key:
  assumes "store_record b s v = Inr (k', s')" and "to_key (v ''id'') = Some k"
  shows "k' = k"
  using assms
  by (cases "v ''id''") (auto simp: store_record_def finish_store_def split: if_splits)

text \<open>
  Writing back a record that was read under a key, with its identifier untouched,
  replaces the record under that key and no other.
\<close>

lemma update_found:
  assumes "get d name k0 = Inr (Some r)" and "update d name r' = Inr (k', d')"
    and "r' ''id'' = r ''id''"
  shows "get d' name k = (if k = k0 then Inr (Some r') else get d name k)"
proof -
  from get_Some_key [OF assms(1)] assms(3) have i: "to_key (r' ''id'') = Some k0" by simp
  from assms(2) obtain s s' where "d name = Some s" "store_record False s r' = Inr (k', s')"
    by (auto simp: update_def split: option.splits sum.splits)
  with i have k: "k' = k0" using store_record_key by blast
  from i have "r' ''id'' = Some (key_val k0)"
    by (cases "r' ''id''") (auto dest: to_key_Some)
  then have "r'(''id'' \<mapsto> key_val k0) = r'" by (simp add: fun_upd_idem)
  with update_get(1) [OF assms(2), of k] k show ?thesis by simp
qed

lemma cancel_effect:
  "(alert_status (snd (cancelSOS st now)) k = alert_status st k
    \<or> (\<exists>cur. currentAlert st = Some cur \<and> to_key (cur ''id'') = Some k)
      \<and> alert_status (snd (cancelSOS st now)) k = Some (JStr ''cancelled''))
   \<and> (\<forall>cur st'. currentAlert st = Some cur \<and> cancelSOS st now = (Success (), st') \<longrightarrow>
         (\<exists>k'. to_key (cur ''id'') = Some k'
               \<and> alert_status st' k' = Some (JStr ''cancelled'')))"
proof -
  { fix cur alertId alert k' db'
    assume c: "currentAlert st = Some cur"
      and j: "js_key (idb st) ''sos_alerts'' (cur ''id'') = Inr alertId"
      and g: "get (idb st) ''sos_alerts'' alertId = Inr (Some alert)"
      and u: "update (idb st) ''sos_alerts''
                (alert(''status'' \<mapsto> JStr ''cancelled'', ''resolved_at'' \<mapsto> JStr now)) = Inr (k', db')"
    let ?st' = "st\<lparr>idb := db', currentAlert := None\<rparr>"
    from j have ck: "to_key (cur ''id'') = Some alertId"
      by (auto simp: js_key_def split: option.splits)
    have st: "\<And>k. alert_status ?st' k
           = (if k = alertId then Some (JStr ''cancelled'') else alert_status st k)"
      using update_found [OF g u] by (simp add: alert_status_def)
    have "(alert_status ?st' k = alert_status st k
           \<or> to_key (cur ''id'') = Some k \<and> alert_status ?st' k = Some (JStr ''cancelled''))
        \<and> (\<exists>k'. to_key (cur ''id'') = Some k' \<and> alert_status ?st' k' = Some (JStr ''cancelled''))"
      using st ck by auto
  }
  then show ?thesis
    by (auto simp: cancelSOS_def split: option.splits sum.splits)
qed

lemma resolve_effect:
  "(alert_status (snd (resolveSOS st now alertId nt)) k = alert_status st k
    \<or> k = alertId
      \<and> alert_status (snd (resolveSOS st now alertId nt)) k = Some (JStr ''resolved''))
   \<and> (\<forall>st'. resolveSOS st now alertId nt = (Success (), st') \<longrightarrow>
         alert_status st' alertId = Some (JStr ''resolved''))"
proof -
  { fix alert k' db'
    assume g: "get (idb st) ''sos_alerts'' alertId = Inr (Some alert)"
      and u: "update (idb st) ''sos_alerts''
                (alert(''status'' \<mapsto> JStr ''resolved'', ''resolved_at'' \<mapsto> JStr now,
                       ''notes'' \<mapsto> JStr nt)) = Inr (k', db')"
    have "\<And>k. alert_status (st\<lparr>idb := db'\<rparr>) k
           = (if k = alertId then Some (JStr ''resolved'') else alert_status st k)"
      using update_found [OF g u] by (simp add: alert_status_def)
  }
  then show ?thesis
    by (auto simp: resolveSOS_def split: option.splits sum.splits)
qed

lemma sos_step_status:
  "alert_status (sos_step st op) k = alert_status st k
   \<or> (alert_status st k = None \<and> alert_status (sos_step st op) k = Some (JStr ''active''))
   \<or> settled (alert_status (sos_step st op) k)"
proof (cases op)
  case (Trigger now b loc)
  then show ?thesis using trigger_effect [of st now b loc k] by auto
next
  case (Cancel now)
  then show ?thesis using cancel_effect [of st now k] by (auto simp: settled_def)
next
  case (Resolve now alertId nt)
  then show ?thesis using resolve_effect [of st now alertId nt k] by (auto simp: settled_def)
qed

lemma settled_run:
  "settled (alert_status st k) \<Longrightarrow> settled (alert_status (foldl sos_step st ops) k)"
proof (induction ops arbitrary: st)
  case Nil
  then show ?case by simp
next
  case (Cons op ops)
  have "settled (alert_status (sos_step st op) k)"
    using sos_step_status [of st op k] Cons.prems by (auto simp: settled_def)
  then show ?case using Cons.IH by simp
qed

text \<open>
  Claim C4, as the code has it. \<^verbatim>\<open>cancelSOS\<close> and \<^verbatim>\<open>resolveSOS\<close> do not look at
  the status an alert has. What holds of every state and every call is this.
  \<^verbatim>\<open>triggerSOS\<close> changes no status but that of the alert it creates, and when it
  succeeds the alert it returns is new and stored with status active.
  \<^verbatim>\<open>cancelSOS\<close> changes no status but that of the alert in flight, to cancelled, and
  does so whenever it succeeds with an alert in flight. \<^verbatim>\<open>resolveSOS\<close> changes no
  status but that of the alert it is given, to resolved, and does so whenever it
  succeeds. Hence, over every sequence of the three operations, an alert whose status
  is cancelled or resolved keeps a status that is cancelled or resolved and never
  becomes active again, and a status that an operation changes becomes cancelled or
  resolved.
\<close>

theorem sos_status_settles:
  "(settled (alert_status st k) \<longrightarrow> settled (alert_status (foldl sos_step st ops) k))
   \<and> (alert_status st k \<noteq> None \<and> alert_status (sos_step st op) k \<noteq> alert_status st k
      \<longrightarrow> settled (alert_status (sos_step st op) k))
   \<and> (alert_status (snd (triggerSOS st now b loc)) k = alert_status st k
      \<or> alert_status st k = None
        \<and> alert_status (snd (triggerSOS st now b loc)) k = Some (JStr ''active''))
   \<and> (\<forall>a st'. triggerSOS st now b loc = (Success a, st') \<longrightarrow>
         (\<exists>k'. to_key (a ''id'') = Some k' \<and> alert_status st k' = None
               \<and> alert_status st' k' = Some (JStr ''active'')))
   \<and> (alert_status (snd (cancelSOS st now)) k = alert_status st k
      \<or> (\<exists>cur. currentAlert st = Some cur \<and> to_key (cur ''id'') = Some k)
        \<and> alert_status (snd (cancelSOS st now)) k = Some (JStr ''cancelled''))
   \<and> (\<forall>cur st'. currentAlert st = Some cur \<and> cancelSOS st now = (Success (), st') \<longrightarrow>
         (\<exists>k'. to_key (cur ''id'') = Some k'
               \<and> alert_status st' k' = Some (JStr ''cancelled'')))
   \<and> (alert_status (snd (resolveSOS st now alertId nt)) k = alert_status st k
      \<or> k = alertId
        \<and> alert_status (snd (resolveSOS st now alertId nt)) k = Some (JStr ''resolved''))
   \<and> (\<forall>st'. resolveSOS st now alertId nt = (Success (), st') \<longrightarrow>
         alert_status st' alertId = Some (JStr ''resolved''))"
proof -
  note T = trigger_effect [of st now b loc k]
    and C = cancel_effect [of st now k]
    and R = resolve_effect [of st now alertId nt k]
  have 1: "settled (alert_status st k) \<longrightarrow> settled (alert_status (foldl sos_step st ops) k)"
    using settled_run [of st k ops] by blast
  have 2: "alert_status st k \<noteq> None \<and> alert_status (sos_step st op) k \<noteq> alert_status st k
      \<longrightarrow> settled (alert_status (sos_step st op) k)"
    using sos_step_status [of st op k] by auto
  show ?thesis
    using 1 2 T [THEN conjunct1] T [THEN conjunct2] C [THEN conjunct1] C [THEN conjunct2]
      R [THEN conjunct1] R [THEN conjunct2]
    by (intro conjI) assumption+
qed

lemma init_sos_alerts:
  "init None ''sos_alerts'' =
     Some (new_store [(''user_id'', False), (''status'', False), (''triggered_at'', False)])"
  by (simp add: init_def upgrade_def ensure_store_def)

lemmas sos_eval =
  fresh_session_def triggerSOS_def cancelSOS_def resolveSOS_def alert_status_def js_key_def
  add_def get_def update_def init_sos_alerts
  store_record_def finish_store_def has_key_def unique_clash_def unique_paths_def
  write_row_def new_store_def store_get_def key_of_def Let_def

text \<open>
  A cancelled alert is moved to resolved by \<^verbatim>\<open>resolveSOS\<close>, and a resolved alert that
  is still the alert in flight is moved to cancelled by \<^verbatim>\<open>cancelSOS\<close>.
\<close>

theorem sos_settled_status_changes:
  "alert_status (foldl sos_step fresh_session
      [Trigger ''2024-05-01T10:00:00.000Z'' False None,
       Cancel ''2024-05-01T10:01:00.000Z'']) (KNum 1) = Some (JStr ''cancelled'')
   \<and> alert_status (foldl sos_step fresh_session
      [Trigger ''2024-05-01T10:00:00.000Z'' False None,
       Cancel ''2024-05-01T10:01:00.000Z'',
       Resolve ''2024-05-01T10:02:00.000Z'' (KNum 1) ''safe now'']) (KNum 1)
       = Some (JStr ''resolved'')
   \<and> alert_status (foldl sos_step fresh_session
      [Trigger ''2024-05-01T10:00:00.000Z'' False None,
       Resolve ''2024-05-01T10:01:00.000Z'' (KNum 1) ''safe now'']) (KNum 1)
       = Some (JStr ''resolved'')
   \<and> alert_status (foldl sos_step fresh_session
      [Trigger ''2024-05-01T10:00:00.000Z'' False None,
       Resolve ''2024-05-01T10:01:00.000Z'' (KNum 1) ''safe now'',
       Cancel ''2024-05-01T10:02:00.000Z'']) (KNum 1) = Some (JStr ''cancelled'')"
  by (simp add: sos_eval)


text \<open>
  On a new session: the alert triggered is stored as active under key 1; cancelling
  makes it cancelled; resolving it then makes it resolved; and after one more alert is
  triggered its status is still resolved.
\<close>

theorem sos_status_settles_witness:
  "fst (triggerSOS fresh_session ''2024-05-01T10:00:00.000Z'' False None)
     = Success [''user_id'' \<mapsto> JNum 1,
                ''triggered_at'' \<mapsto> JStr ''2024-05-01T10:00:00.000Z'',
                ''location_lat'' \<mapsto> JNull, ''location_lng'' \<mapsto> JNull,
                ''location_address'' \<mapsto> JNull, ''status'' \<mapsto> JStr ''active'',
                ''notes'' \<mapsto> JStr [],
                ''created_at'' \<mapsto> JStr ''2024-05-01T10:00:00.000Z'', ''id'' \<mapsto> JNum 1]
   \<and> alert_status fresh_session (KNum 1) = None
   \<and> alert_status (sos_step fresh_session (Trigger ''2024-05-01T10:00:00.000Z'' False None))
        (KNum 1) = Some (JStr ''active'')
   \<and> fst (cancelSOS (sos_step fresh_session (Trigger ''2024-05-01T10:00:00.000Z'' False None))
        ''2024-05-01T10:01:00.000Z'') = Success ()
   \<and> alert_status (foldl sos_step fresh_session
        [Trigger ''2024-05-01T10:00:00.000Z'' False None,
         Cancel ''2024-05-01T10:01:00.000Z'']) (KNum 1) = Some (JStr ''cancelled'')
   \<and> fst (resolveSOS (foldl sos_step fresh_session
        [Trigger ''2024-05-01T10:00:00.000Z'' False None,
         Cancel ''2024-05-01T10:01:00.000Z''])
        ''2024-05-01T10:02:00.000Z'' (KNum 1) ''safe now'') = Success ()
   \<and> alert_status (foldl sos_step fresh_session
        [Trigger ''2024-05-01T10:00:00.000Z'' False None,
         Cancel ''2024-05-01T10:01:00.000Z'',
         Resolve ''2024-05-01T10:02:00.000Z'' (KNum 1) ''safe now'']) (KNum 1)
       = Some (JStr ''resolved'')
   \<and> settled (alert_status (foldl sos_step (foldl sos_step fresh_session
        [Trigger ''2024-05-01T10:00:00.000Z'' False None,
         Cancel ''2024-05-01T10:01:00.000Z'',
         Resolve ''2024-05-01T10:02:00.000Z'' (KNum 1) ''safe now''])
        [Trigger ''2024-05-01T10:03:00.000Z'' False None,
         Cancel ''2024-05-01T10:04:00.000Z'']) (KNum 1))"
proof -
  let ?t1 = "''2024-05-01T10:00:00.000Z''" and ?t2 = "''2024-05-01T10:01:00.000Z''"
    and ?t3 = "''2024-05-01T10:02:00.000Z''"
  let ?a = "[''user_id'' \<mapsto> JNum 1, ''triggered_at'' \<mapsto> JStr ?t1,
                ''location_lat'' \<mapsto> JNull, ''location_lng'' \<mapsto> JNull,
                ''location_address'' \<mapsto> JNull, ''status'' \<mapsto> JStr ''active'',
                ''notes'' \<mapsto> JStr [],
                ''created_at'' \<mapsto> JStr ?t1, ''id'' \<mapsto> JNum 1]"
  let ?s1 = "sos_step fresh_session (Trigger ?t1 False None)"
  let ?s2 = "foldl sos_step fresh_session [Trigger ?t1 False None, Cancel ?t2]"
  let ?s3 = "foldl sos_step fresh_session
               [Trigger ?t1 False None, Cancel ?t2, Resolve ?t3 (KNum 1) ''safe now'']"
  have r1: "fst (triggerSOS fresh_session ?t1 False None) = Success ?a"
    by (simp add: sos_eval)
  then have t1: "triggerSOS fresh_session ?t1 False None = (Success ?a, ?s1)"
    by (simp add: prod_eq_iff)
  from sos_status_settles [where st = fresh_session and k = "KNum 1" and now = ?t1
      and b = False and loc = None] t1
  obtain k' where k': "to_key (?a ''id'') = Some k'" "alert_status fresh_session k' = None"
    "alert_status ?s1 k' = Some (JStr ''active'')" by blast
  from k'(1) have "k' = KNum 1" by simp
  with k' have a0: "alert_status fresh_session (KNum 1) = None"
    and a1: "alert_status ?s1 (KNum 1) = Some (JStr ''active'')" by simp_all
  have c: "currentAlert ?s1 = Some ?a" by (simp add: sos_eval)
  have r2: "fst (cancelSOS ?s1 ?t2) = Success ()" by (simp add: sos_eval)
  then have t2: "cancelSOS ?s1 ?t2 = (Success (), ?s2)" by (simp add: prod_eq_iff)
  from sos_status_settles [where st = ?s1 and k = "KNum 1" and now = ?t2] c t2
  obtain k'' where k'': "to_key (?a ''id'') = Some k''"
    "alert_status ?s2 k'' = Some (JStr ''cancelled'')" by blast
  from k''(1) have "k'' = KNum 1" by simp
  with k'' have a2: "alert_status ?s2 (KNum 1) = Some (JStr ''cancelled'')" by simp
  have r3: "fst (resolveSOS ?s2 ?t3 (KNum 1) ''safe now'') = Success ()" by (simp add: sos_eval)
  then have t3: "resolveSOS ?s2 ?t3 (KNum 1) ''safe now'' = (Success (), ?s3)"
    by (simp add: prod_eq_iff)
  from sos_status_settles [where st = ?s2 and k = "KNum 1" and now = ?t3
      and alertId = "KNum 1" and nt = "''safe now''"] t3
  have a3: "alert_status ?s3 (KNum 1) = Some (JStr ''resolved'')" by blast
  then have "settled (alert_status ?s3 (KNum 1))" by (simp add: settled_def)
  with sos_status_settles [where st = ?s3 and k = "KNum 1" and ops =
      "[Trigger ''2024-05-01T10:03:00.000Z'' False None, Cancel ''2024-05-01T10:04:00.000Z'']"]
  have a4: "settled (alert_status (foldl sos_step ?s3
      [Trigger ''2024-05-01T10:03:00.000Z'' False None, Cancel ''2024-05-01T10:04:00.000Z''])
      (KNum 1))" by blast
  from r1 a0 a1 r2 a2 r3 a3 a4 show ?thesis by (simp only:)
qed

subsection \<open>Deleting an account\<close>

text \<open>No store but \<^verbatim>\<open>users\<close> is written by \<^verbatim>\<open>deleteAccount\<close>.\<close>

lemma deleteAccount_other_stores:
  "name \<noteq> ''users'' \<Longrightarrow> idb (snd (deleteAccount st confirmed)) name = idb st name"
  by (auto simp: deleteAccount_def logout_def delete_def split: option.splits sum.splits)

text \<open>
  Claim C1 asks that no record referring to a deleted user remains. In the session with
  three contacts and two pieces of evidence, \<^verbatim>\<open>deleteAccount\<close> succeeds and removes
  the user, and the index \<^verbatim>\<open>user_id\<close> still returns the three contacts and the two
  pieces of evidence for the user's identifier.
\<close>

theorem deleteAccount_keeps_scoped_records:
  "fst (deleteAccount cascade_session True) = Success ()
   \<and> get (idb (snd (deleteAccount cascade_session True))) ''users'' (KNum 1) = Inr None
   \<and> getByIndex (idb (snd (deleteAccount cascade_session True)))
         ''emergency_contacts'' ''user_id'' (KNum 1)
       = Inr [[''id'' \<mapsto> JNum 1, ''user_id'' \<mapsto> JNum 1, ''name'' \<mapsto> JStr ''Mother''],
              [''id'' \<mapsto> JNum 2, ''user_id'' \<mapsto> JNum 1, ''name'' \<mapsto> JStr ''Sister''],
              [''id'' \<mapsto> JNum 3, ''user_id'' \<mapsto> JNum 1, ''name'' \<mapsto> JStr ''Friend'']]
   \<and> getByIndex (idb (snd (deleteAccount cascade_session True)))
         ''evidence'' ''user_id'' (KNum 1)
       = Inr [[''id'' \<mapsto> JNum 1, ''user_id'' \<mapsto> JNum 1, ''type'' \<mapsto> JStr ''photo''],
              [''id'' \<mapsto> JNum 2, ''user_id'' \<mapsto> JNum 1, ''type'' \<mapsto> JStr ''audio'']]"
  by (simp add: cascade_session_def deleteAccount_def logout_def js_key_def delete_def
      store_delete_def get_def store_get_def key_of_def getByIndex_def index_getAll_def)

section \<open>Properties of the offline queue\<close>

lemma request_fetched: "fetched (snd (request net st req)) = fetched st @ [req]"
  by (simp add: request_def addToOfflineQueue_def Let_def split: net_reply.splits)

lemma replay_fetched:
  "fetched (snd (replay net st reqs)) = fetched st @ reqs
   \<and> length (fst (replay net st reqs)) = length reqs"
proof (induction reqs arbitrary: st)
  case Nil
  show ?case by simp
next
  case (Cons req reqs)
  show ?case
    using Cons.IH [of "snd (request net st req)"] request_fetched [of net st req]
    by (simp add: split_beta Let_def)
qed

text \<open>
  Claim C3. One pass of \<^verbatim>\<open>processOfflineQueue\<close> hands the requests of the stored
  queue to \<^verbatim>\<open>fetch\<close> once each, in the order in which they were queued, whatever the
  network answers; after the pass the stored queue is empty, and when there was
  something to replay the queue in memory is empty too and one result per request is
  returned.
\<close>

theorem processOfflineQueue_drains:
  "fetched (snd (processOfflineQueue net st)) = fetched st @ pending st
   \<and> pending (snd (processOfflineQueue net st)) = []
   \<and> (pending st \<noteq> [] \<longrightarrow>
        offlineQueue (snd (processOfflineQueue net st)) = []
        \<and> storage_queue (snd (processOfflineQueue net st)) = None
        \<and> (\<exists>results. fst (processOfflineQueue net st) = Some results
              \<and> length results = length (pending st)))"
  using replay_fetched [of net st "pending st"]
  by (auto simp: processOfflineQueue_def Let_def split_beta pending_def split: option.splits)


theorem processOfflineQueue_drains_witness:
  "pending \<lparr>storage_queue = Some [\<lparr>endpoint = ''/catch'', options = [''body'' \<mapsto> JStr ''a'']\<rparr>,
                                   \<lparr>endpoint = ''/catch'', options = [''body'' \<mapsto> JStr ''b'']\<rparr>,
                                   \<lparr>endpoint = ''/catch'', options = [''body'' \<mapsto> JStr ''c'']\<rparr>],
            offlineQueue = [], fetched = []\<rparr> \<noteq> []
   \<and> fst (processOfflineQueue (\<lambda>n req. if n = 1 then Rejected False else Delivered)
        \<lparr>storage_queue = Some [\<lparr>endpoint = ''/catch'', options = [''body'' \<mapsto> JStr ''a'']\<rparr>,
                               \<lparr>endpoint = ''/catch'', options = [''body'' \<mapsto> JStr ''b'']\<rparr>,
                               \<lparr>endpoint = ''/catch'', options = [''body'' \<mapsto> JStr ''c'']\<rparr>],
          offlineQueue = [], fetched = []\<rparr>) = Some [True, False, True]
   \<and> pending (snd (processOfflineQueue (\<lambda>n req. if n = 1 then Rejected False else Delivered)
        \<lparr>storage_queue = Some [\<lparr>endpoint = ''/catch'', options = [''body'' \<mapsto> JStr ''a'']\<rparr>,
                               \<lparr>endpoint = ''/catch'', options = [''body'' \<mapsto> JStr ''b'']\<rparr>,
                               \<lparr>endpoint = ''/catch'', options = [''body'' \<mapsto> JStr ''c'']\<rparr>],
          offlineQueue = [], fetched = []\<rparr>)) = []
   \<and> offlineQueue (snd (processOfflineQueue (\<lambda>n req. if n = 1 then Rejected False else Delivered)
        \<lparr>storage_queue = Some [\<lparr>endpoint = ''/catch'', options = [''body'' \<mapsto> JStr ''a'']\<rparr>,
                               \<lparr>endpoint = ''/catch'', options = [''body'' \<mapsto> JStr ''b'']\<rparr>,
                               \<lparr>endpoint = ''/catch'', options = [''body'' \<mapsto> JStr ''c'']\<rparr>],
          offlineQueue = [], fetched = []\<rparr>)) = []"
proof -
  let ?st = "\<lparr>storage_queue = Some [\<lparr>endpoint = ''/catch'', options = [''body'' \<mapsto> JStr ''a'']\<rparr>,
                               \<lparr>endpoint = ''/catch'', options = [''body'' \<mapsto> JStr ''b'']\<rparr>,
                               \<lparr>endpoint = ''/catch'', options = [''body'' \<mapsto> JStr ''c'']\<rparr>],
          offlineQueue = [], fetched = []\<rparr>"
  let ?net = "\<lambda>(n::nat) (req::queued_request). if n = 1 then Rejected False else Delivered"
  have p: "pending ?st \<noteq> []" by (simp add: pending_def)
  have r: "fst (processOfflineQueue ?net ?st) = Some [True, False, True]"
    by (simp add: processOfflineQueue_def pending_def request_def addToOfflineQueue_def Let_def)
  from p r processOfflineQueue_drains [of ?net ?st] show ?thesis by blast
qed

section \<open>Properties of the derived queries\<close>

subsection \<open>Rating a responder\<close>

lemma get_update_responder:
  assumes "get_responder rs i = Some r" and "responder_id r' = i"
  shows "get_responder (update_responder rs r') i = Some r'"
proof -
  from assms(1) have ex: "list_ex (\<lambda>x. responder_id x = i) rs"
    by (auto simp: get_responder_def list_ex_iff find_Some_iff)
  have "\<And>P. list_ex (\<lambda>x. responder_id x = i) rs \<Longrightarrow>
     find (\<lambda>x. responder_id x = i) (map (\<lambda>x. if responder_id x = i then r' else x) rs) = Some r'"
    using assms(2) by (induction rs) auto
  with ex assms(2) show ?thesis
    by (simp add: get_responder_def update_responder_def)
qed

text \<open>
  Claim C5. For a responder of the store with rating \<open>rating r\<close> and count
  \<open>response_count r\<close>: a rating below 0 or above 5 is refused with the message of the
  range check and the store is left as it was; a rating within the range stores the
  responder with the count raised by one and the rating
  \<open>(rating r * response_count r + v) / (response_count r + 1)\<close>, every other field
  kept. The witness is the responder with rating 4 and count 2, rated 5 and then 6.
\<close>

theorem rateResponder_running_average:
  assumes "get_responder rs i = Some r"
  shows "(v < 0 \<or> 5 < v \<longrightarrow>
            rateResponder rs i v = (Failed (Msg ''Rating must be between 0 and 5''), rs))
       \<and> (0 \<le> v \<and> v \<le> 5 \<longrightarrow>
            fst (rateResponder rs i v)
              = Success (r\<lparr>response_count := response_count r + 1,
                            rating := (rating r * real (response_count r) + v)
                                      / real (response_count r + 1)\<rparr>)
            \<and> get_responder (snd (rateResponder rs i v)) i
              = Some (r\<lparr>response_count := response_count r + 1,
                         rating := (rating r * real (response_count r) + v)
                                   / real (response_count r + 1)\<rparr>))"
proof -
  from assms have i: "responder_id r = i"
    by (auto simp: get_responder_def find_Some_iff)
  let ?r' = "r\<lparr>response_count := response_count r + 1,
               rating := (rating r * real (response_count r) + v) / real (response_count r + 1)\<rparr>"
  have "get_responder (update_responder rs ?r') i = Some ?r'"
    using get_update_responder [OF assms, of ?r'] i by simp
  then show ?thesis using assms
    by (auto simp: rateResponder_def Let_def)
qed

theorem rateResponder_running_average_witness:
  "get_responder
     [\<lparr>responder_id = 4, responder_name = ''Verified Local Volunteer'',
       responder_type = ''volunteer'', latitude = None, longitude = None,
       is_verified = True, is_available = True, rating = 4, response_count = 2\<rparr>] 4
     = Some \<lparr>responder_id = 4, responder_name = ''Verified Local Volunteer'',
       responder_type = ''volunteer'', latitude = None, longitude = None,
       is_verified = True, is_available = True, rating = 4, response_count = 2\<rparr>
   \<and> get_responder (snd (rateResponder
     [\<lparr>responder_id = 4, responder_name = ''Verified Local Volunteer'',
       responder_type = ''volunteer'', latitude = None, longitude = None,
       is_verified = True, is_available = True, rating = 4, response_count = 2\<rparr>] 4 5)) 4
     = Some \<lparr>responder_id = 4, responder_name = ''Verified Local Volunteer'',
       responder_type = ''volunteer'', latitude = None, longitude = None,
       is_verified = True, is_available = True, rating = 13 / 3, response_count = 3\<rparr>
   \<and> rateResponder
     [\<lparr>responder_id = 4, responder_name = ''Verified Local Volunteer'',
       responder_type = ''volunteer'', latitude = None, longitude = None,
       is_verified = True, is_available = True, rating = 4, response_count = 2\<rparr>] 4 6
     = (Failed (Msg ''Rating must be between 0 and 5''),
        [\<lparr>responder_id = 4, responder_name = ''Verified Local Volunteer'',
       responder_type = ''volunteer'', latitude = None, longitude = None,
       is_verified = True, is_available = True, rating = 4, response_count = 2\<rparr>])"
proof -
  let ?r = "\<lparr>responder_id = 4, responder_name = ''Verified Local Volunteer'',
       responder_type = ''volunteer'', latitude = None, longitude = None,
       is_verified = True, is_available = True, rating = 4, response_count = 2\<rparr>"
  have g: "get_responder [?r] 4 = Some ?r" by (simp add: get_responder_def)
  from rateResponder_running_average [OF g, of 5]
  have a: "get_responder (snd (rateResponder [?r] 4 5)) 4
            = Some (?r\<lparr>response_count := 3, rating := 13 / 3\<rparr>)" by simp
  from rateResponder_running_average [OF g, of 6]
  have b: "rateResponder [?r] 4 6 = (Failed (Msg ''Rating must be between 0 and 5''), [?r])"
    by simp
  from g a b show ?thesis by simp
qed


subsection \<open>The location history\<close>

lemma newest_first_sort:
  "sorted_wrt (\<lambda>a b. timestamp b \<le> timestamp a) (sort_key (\<lambda>l. - timestamp l) xs)"
proof -
  have "sorted (map (\<lambda>l. - timestamp l) (sort_key (\<lambda>l. - timestamp l) xs))"
    by (rule sorted_sort_key)
  then show ?thesis by (simp add: sorted_map)
qed

lemma getLocationHistory_all:
  "getLocationHistory (Some uid) history (Some 0)
     = sort_key (\<lambda>l. - timestamp l) (filter (\<lambda>l. entry_user_id l = uid) history)"
  by (simp add: getLocationHistory_def)

text \<open>
  Claim C10, as the code has it. For a logged-in user the answer holds records of that
  user only, later time values first. With limit 0 it holds all of them; with a limit
  \<open>n > 0\<close> it is the first \<open>n\<close> of those, so at most \<open>n\<close> records; without
  an argument the limit is 100.
\<close>

theorem getLocationHistory_newest_first:
  "sorted_wrt (\<lambda>a b. timestamp b \<le> timestamp a) (getLocationHistory (Some uid) history limit_arg)
   \<and> set (getLocationHistory (Some uid) history limit_arg)
       \<subseteq> {l. l \<in> set history \<and> entry_user_id l = uid}
   \<and> set (getLocationHistory (Some uid) history (Some 0))
       = {l. l \<in> set history \<and> entry_user_id l = uid}
   \<and> length (getLocationHistory (Some uid) history (Some 0))
       = length (filter (\<lambda>l. entry_user_id l = uid) history)
   \<and> (0 < n \<longrightarrow>
        getLocationHistory (Some uid) history (Some n)
          = take (nat n) (getLocationHistory (Some uid) history (Some 0))
        \<and> int (length (getLocationHistory (Some uid) history (Some n))) \<le> n)
   \<and> getLocationHistory (Some uid) history None
       = take 100 (getLocationHistory (Some uid) history (Some 0))"
proof -
  let ?all = "sort_key (\<lambda>l. - timestamp l) (filter (\<lambda>l. entry_user_id l = uid) history)"
  have s: "sorted_wrt (\<lambda>a b. timestamp b \<le> timestamp a) ?all" by (rule newest_first_sort)
  have 1: "sorted_wrt (\<lambda>a b. timestamp b \<le> timestamp a) (getLocationHistory (Some uid) history limit_arg)"
    using s by (auto simp: getLocationHistory_def slice0_def Let_def split: option.splits)
  have 2: "set (getLocationHistory (Some uid) history limit_arg)
       \<subseteq> {l. l \<in> set history \<and> entry_user_id l = uid}"
    by (auto simp: getLocationHistory_def slice0_def Let_def split: option.splits if_splits
        dest!: in_set_takeD)
  have 3: "0 < n \<Longrightarrow> getLocationHistory (Some uid) history (Some n)
          = take (nat n) (getLocationHistory (Some uid) history (Some 0))"
    by (simp add: getLocationHistory_def slice0_def)
  have 4: "0 < n \<Longrightarrow> int (length (getLocationHistory (Some uid) history (Some n))) \<le> n"
    by (simp add: getLocationHistory_def slice0_def)
  have 5: "getLocationHistory (Some uid) history None
       = take 100 (getLocationHistory (Some uid) history (Some 0))"
    by (simp add: getLocationHistory_def slice0_def)
  from 1 2 3 4 5 show ?thesis
    by (simp add: getLocationHistory_all)
qed

text \<open>
  A limit of 0 does not give an empty answer: the slice is skipped and the whole history
  of the user is returned.
\<close>

theorem getLocationHistory_limit_zero:
  "getLocationHistory (Some 1)
     [\<lparr>entry_id = 1, entry_user_id = 1, entry_latitude = 17, entry_longitude = 78,
       timestamp = 1000\<rparr>] (Some 0)
   = [\<lparr>entry_id = 1, entry_user_id = 1, entry_latitude = 17, entry_longitude = 78,
       timestamp = 1000\<rparr>]
   \<and> \<not> int (length (getLocationHistory (Some 1)
     [\<lparr>entry_id = 1, entry_user_id = 1, entry_latitude = 17, entry_longitude = 78,
       timestamp = 1000\<rparr>] (Some 0))) \<le> 0"
  by (simp add: getLocationHistory_def)

theorem getLocationHistory_newest_first_witness:
  "(0::int) < 2
   \<and> getLocationHistory (Some 1)
     [\<lparr>entry_id = 1, entry_user_id = 1, entry_latitude = 17, entry_longitude = 78, timestamp = 1000\<rparr>,
      \<lparr>entry_id = 2, entry_user_id = 2, entry_latitude = 17, entry_longitude = 78, timestamp = 1500\<rparr>,
      \<lparr>entry_id = 3, entry_user_id = 1, entry_latitude = 17, entry_longitude = 78, timestamp = 3000\<rparr>,
      \<lparr>entry_id = 4, entry_user_id = 1, entry_latitude = 17, entry_longitude = 78, timestamp = 2000\<rparr>]
     (Some 2)
   = [\<lparr>entry_id = 3, entry_user_id = 1, entry_latitude = 17, entry_longitude = 78, timestamp = 3000\<rparr>,
      \<lparr>entry_id = 4, entry_user_id = 1, entry_latitude = 17, entry_longitude = 78, timestamp = 2000\<rparr>]
   \<and> int (length (getLocationHistory (Some 1)
     [\<lparr>entry_id = 1, entry_user_id = 1, entry_latitude = 17, entry_longitude = 78, timestamp = 1000\<rparr>,
      \<lparr>entry_id = 2, entry_user_id = 2, entry_latitude = 17, entry_longitude = 78, timestamp = 1500\<rparr>,
      \<lparr>entry_id = 3, entry_user_id = 1, entry_latitude = 17, entry_longitude = 78, timestamp = 3000\<rparr>,
      \<lparr>entry_id = 4, entry_user_id = 1, entry_latitude = 17, entry_longitude = 78, timestamp = 2000\<rparr>]
     (Some 2))) \<le> 2"
proof -
  let ?h = "[\<lparr>entry_id = 1, entry_user_id = 1, entry_latitude = 17, entry_longitude = 78, timestamp = 1000\<rparr>,
      \<lparr>entry_id = 2, entry_user_id = 2, entry_latitude = 17, entry_longitude = 78, timestamp = 1500\<rparr>,
      \<lparr>entry_id = 3, entry_user_id = 1, entry_latitude = 17, entry_longitude = 78, timestamp = 3000\<rparr>,
      \<lparr>entry_id = 4, entry_user_id = 1, entry_latitude = 17, entry_longitude = 78, timestamp = 2000\<rparr>]"
  have z: "(0::int) < 2" by simp
  have a: "getLocationHistory (Some 1) ?h (Some 0)
     = [\<lparr>entry_id = 3, entry_user_id = 1, entry_latitude = 17, entry_longitude = 78, timestamp = 3000\<rparr>,
        \<lparr>entry_id = 4, entry_user_id = 1, entry_latitude = 17, entry_longitude = 78, timestamp = 2000\<rparr>,
        \<lparr>entry_id = 1, entry_user_id = 1, entry_latitude = 17, entry_longitude = 78, timestamp = 1000\<rparr>]"
    by (simp add: getLocationHistory_def)
  from getLocationHistory_newest_first [of 1 ?h "Some 2" 2] z
  have "getLocationHistory (Some 1) ?h (Some 2)
          = take (nat 2) (getLocationHistory (Some 1) ?h (Some 0))
        \<and> int (length (getLocationHistory (Some 1) ?h (Some 2))) \<le> 2"
    by blast
  with a z show ?thesis by simp
qed


subsection \<open>Distances and safe zones\<close>

text \<open>
  Between two points of the same longitude whose latitudes differ by less than 180
  degrees, the distance is the Earth's radius times the difference in radians.
\<close>

lemma calculateDistance_meridian:
  assumes "\<bar>lat2 - lat1\<bar> < 180"
  shows "calculateDistance lat1 lon lat2 lon = 6371000 * (\<bar>lat2 - lat1\<bar> * pi / 180)"
proof -
  define x where "x = (lat2 - lat1) * pi / 180 / 2"
  have ax: "\<bar>x\<bar> = \<bar>lat2 - lat1\<bar> * pi / 360"
    by (simp add: x_def abs_mult)
  have m: "\<bar>lat2 - lat1\<bar> * pi < 180 * pi"
    by (rule mult_strict_right_mono [OF assms pi_gt_zero])
  have "\<bar>x\<bar> * 360 = \<bar>lat2 - lat1\<bar> * pi" using ax by simp
  with m have "\<bar>x\<bar> * 360 < 180 * pi" by (simp only:)
  then have xr: "\<bar>x\<bar> < pi / 2" by linarith
  then have cp: "0 < cos x"
    by (intro cos_gt_zero_pi) (auto simp: abs_less_iff)
  have cabs: "cos \<bar>x\<bar> = cos x" by (simp add: abs_if)
  have sabs: "sin \<bar>x\<bar> = \<bar>sin x\<bar>"
  proof (cases "0 \<le> x")
    case True
    then have "0 \<le> sin x" using xr by (intro sin_ge_zero) (auto simp: abs_less_iff)
    with True show ?thesis by simp
  next
    case False
    then have "0 \<le> sin (- x)" using xr by (intro sin_ge_zero) (auto simp: abs_less_iff)
    with False show ?thesis by (simp add: abs_if)
  qed
  have s1: "sqrt (sin x * sin x) = \<bar>sin x\<bar>" by simp
  have "1 - sin x * sin x = cos x * cos x"
    using sin_cos_squared_add [of x] by (simp add: power2_eq_square algebra_simps)
  then have s2: "sqrt (1 - sin x * sin x) = cos x" using cp by simp
  have "atan2 \<bar>sin x\<bar> (cos x) = arctan (\<bar>sin x\<bar> / cos x)"
    using cp by (simp add: atan2_def)
  also have "\<bar>sin x\<bar> / cos x = tan \<bar>x\<bar>"
    by (simp add: tan_def sabs cabs)
  also have "arctan (tan \<bar>x\<bar>) = \<bar>x\<bar>"
    using xr by (intro arctan_tan) auto
  finally have at: "atan2 \<bar>sin x\<bar> (cos x) = \<bar>x\<bar>" .
  have "calculateDistance lat1 lon lat2 lon
          = 6371000 * (2 * atan2 (sqrt (sin x * sin x)) (sqrt (1 - sin x * sin x)))"
    by (simp add: calculateDistance_def Let_def x_def)
  also have "\<dots> = 6371000 * (2 * \<bar>x\<bar>)" by (simp only: s1 s2 at)
  also have "\<dots> = 6371000 * (\<bar>lat2 - lat1\<bar> * pi / 180)" by (simp add: ax)
  finally show ?thesis .
qed

lemma zone_loop_iff:
  "zone_loop lat lng zs
     \<longleftrightarrow> (\<exists>z\<in>set zs. calculateDistance lat lng (zone_latitude z) (zone_longitude z) \<le> radius z)"
  by (induction zs) auto

lemma isInSafeZone_iff:
  "isInSafeZone (Some uid) zones lat lng
     \<longleftrightarrow> (\<exists>z\<in>set zones. zone_user_id z = uid \<and> is_active z
            \<and> calculateDistance lat lng (zone_latitude z) (zone_longitude z) \<le> radius z)"
  by (auto simp: isInSafeZone_def Let_def zone_loop_iff)

lemma near_home: "calculateDistance (10.0003) 10 10 10 \<le> 50"
proof -
  have "calculateDistance (10.0003) 10 10 10 = 6371000 * (\<bar>10 - 10.0003\<bar> * pi / 180)"
    by (rule calculateDistance_meridian) simp
  also have "\<dots> = 6371000 * 0.0003 / 180 * pi" by simp
  also have "\<dots> \<le> 6371000 * 0.0003 / 180 * 4"
    using pi_less_4 by (intro mult_left_mono) auto
  also have "\<dots> \<le> 50" by simp
  finally show ?thesis .
qed

lemma far_from_home: "\<not> calculateDistance (10.01) 10 10 10 \<le> 50"
proof -
  have "calculateDistance (10.01) 10 10 10 = 6371000 * (\<bar>10 - 10.01\<bar> * pi / 180)"
    by (rule calculateDistance_meridian) simp
  also have "\<dots> = 6371000 * 0.01 / 180 * pi" by simp
  finally have e: "calculateDistance (10.01) 10 10 10 = 6371000 * 0.01 / 180 * pi" .
  have "(50::real) < 6371000 * 0.01 / 180 * 2" by simp
  also have "\<dots> \<le> 6371000 * 0.01 / 180 * pi"
    using pi_ge_two by (intro mult_left_mono) auto
  finally show ?thesis using e by simp
qed


text \<open>
  Claim C6. For a logged-in user, \<^verbatim>\<open>isInSafeZone\<close> answers true exactly when one of
  the user's zones is active and lies within its radius, in metres, of the point; the
  loop \<open>zone_loop\<close> returns at the first such zone. With one zone at (10, 10) of
  radius 50, the point (10.0003, 10) is inside and the point (10.01, 10) is outside.
\<close>

theorem isInSafeZone_membership:
  "(isInSafeZone (Some uid) zones lat lng
      \<longleftrightarrow> (\<exists>z\<in>set zones. zone_user_id z = uid \<and> is_active z
             \<and> calculateDistance lat lng (zone_latitude z) (zone_longitude z) \<le> radius z))
   \<and> isInSafeZone (Some 1)
        [\<lparr>zone_id = 1, zone_user_id = 1, zone_name = ''Home'', zone_latitude = 10,
          zone_longitude = 10, radius = 50, is_active = True\<rparr>] (10.0003) 10
   \<and> \<not> isInSafeZone (Some 1)
        [\<lparr>zone_id = 1, zone_user_id = 1, zone_name = ''Home'', zone_latitude = 10,
          zone_longitude = 10, radius = 50, is_active = True\<rparr>] (10.01) 10"
  using near_home far_from_home by (simp add: isInSafeZone_iff)

theorem isInSafeZone_membership_witness:
  "calculateDistance (10.0003) 10 10 10 \<le> 50
   \<and> isInSafeZone (Some 1)
        [\<lparr>zone_id = 1, zone_user_id = 1, zone_name = ''Home'', zone_latitude = 10,
          zone_longitude = 10, radius = 50, is_active = True\<rparr>,
         \<lparr>zone_id = 2, zone_user_id = 1, zone_name = ''Work'', zone_latitude = 11,
          zone_longitude = 10, radius = 100, is_active = False\<rparr>] (10.0003) 10"
proof -
  let ?zs = "[\<lparr>zone_id = 1, zone_user_id = 1, zone_name = ''Home'', zone_latitude = 10,
          zone_longitude = 10, radius = 50, is_active = True\<rparr>,
         \<lparr>zone_id = 2, zone_user_id = 1, zone_name = ''Work'', zone_latitude = 11,
          zone_longitude = 10, radius = 100, is_active = False\<rparr>]"
  have "\<exists>z\<in>set ?zs. zone_user_id z = 1 \<and> is_active z
          \<and> calculateDistance (10.0003) 10 (zone_latitude z) (zone_longitude z) \<le> radius z"
    using near_home by simp
  with isInSafeZone_membership [of 1 ?zs "10.0003" 10] near_home
  show ?thesis by blast
qed

subsection \<open>Nearby responders\<close>

text \<open>
  What \<^verbatim>\<open>getNearbyResponders\<close> returns: the responders whose two coordinates are
  truthy and whose distance is within the radius, each with its distance, nearest
  first.
\<close>

lemma getNearbyResponders_result:
  "sorted (map snd (getNearbyResponders allResponders lat lng radius_arg))
   \<and> set (getNearbyResponders allResponders lat lng radius_arg)
       = with_distance lat lng `
           {r \<in> set allResponders. truthy_num (latitude r) \<and> truthy_num (longitude r)
              \<and> snd (with_distance lat lng r) \<le> (case radius_arg of None \<Rightarrow> 10 | Some x \<Rightarrow> x)}"
  by (auto simp: getNearbyResponders_def Let_def)

text \<open>
  Claim C2 asks for the responders with non-null coordinates. A coordinate of 0 is not
  \<^verbatim>\<open>null\<close>, yet it is false in the filter: with responders at (0, 0) and (0, 0.1),
  the query at (0, 0) with radius 10 km returns nothing, although the first responder
  is at distance 0.
\<close>

theorem getNearbyResponders_drops_zero_coordinates:
  "getNearbyResponders
     [\<lparr>responder_id = 1, responder_name = ''City Police Station'', responder_type = ''police'',
       latitude = Some 0, longitude = Some 0, is_verified = True, is_available = True,
       rating = 5, response_count = 0\<rparr>,
      \<lparr>responder_id = 2, responder_name = ''She Teams Helpline'', responder_type = ''she_team'',
       latitude = Some 0, longitude = Some 0.1, is_verified = True, is_available = True,
       rating = 5, response_count = 0\<rparr>] 0 0 (Some 10) = []
   \<and> calculateDistance 0 0 0 0 / 1000 \<le> 10"
  using calculateDistance_meridian [of 0 0 0]
  by (simp add: getNearbyResponders_def truthy_num_def)

end
